theory Spec2Isabelle
  imports Main
begin

section \<open>Python values as the conversation viewer sees them\<close>

text \<open>
  The viewer (\<^verbatim>\<open>conv_viewer.py\<close>) works on what \<^verbatim>\<open>json.load\<close> returns and on Python
  strings. A Python \<^verbatim>\<open>str\<close> is a sequence of Unicode code points and \<^verbatim>\<open>len\<close> counts code
  points, so a string is modelled as a list of code points; \<open>ustr\<close> embeds an ASCII literal.
  The ellipsis, the arrow, the dash and the rule character of the source are single code
  points beyond ASCII.
\<close>

type_synonym ustring = "nat list"

definition ustr :: "string \<Rightarrow> ustring" where
  "ustr s = map of_char s"

definition ellipsis :: ustring where
  "ellipsis = [8230]"

definition arrow :: ustring where
  "arrow = [8594]"

definition em_dash :: ustring where
  "em_dash = [8212]"

definition rule_char :: nat where
  "rule_char = 9472"

text \<open>
  Decoded JSON. Objects keep the insertion order of the Python \<^verbatim>\<open>dict\<close> as an association
  list (a decoded object has no duplicate key; lookup takes the first binding). JSON numbers
  with a fraction or an exponent, which Python decodes to \<^verbatim>\<open>float\<close>, are outside the model:
  every number is an \<^verbatim>\<open>int\<close>.
\<close>

datatype json =
    JNull
  | JBool bool
  | JInt int
  | JStr ustring
  | JArr "json list"
  | JObj "(ustring \<times> json) list"

text \<open>
  The exceptions that can escape from the viewer: the two its own code raises on objects
  of the wrong type, and the one \<^verbatim>\<open>json.dumps\<close> raises on a value that is nested too deeply.
\<close>

datatype py_error = AttributeError | TypeError | RecursionError

definition bind_err :: "py_error + 'a \<Rightarrow> ('a \<Rightarrow> py_error + 'b) \<Rightarrow> py_error + 'b" where
  "bind_err m f = (case m of Inl e \<Rightarrow> Inl e | Inr v \<Rightarrow> f v)"

text \<open>
  A loop that threads a state through its passes, and a loop that collects one result per
  pass; both stop at the first pass that raises.
\<close>

fun fold_err :: "('s \<Rightarrow> 'a \<Rightarrow> py_error + 's) \<Rightarrow> 's \<Rightarrow> 'a list \<Rightarrow> py_error + 's" where
  "fold_err f s [] = Inr s"
| "fold_err f s (x # xs) = (case f s x of Inl e \<Rightarrow> Inl e | Inr s' \<Rightarrow> fold_err f s' xs)"

fun map_err :: "('a \<Rightarrow> py_error + 'b) \<Rightarrow> 'a list \<Rightarrow> py_error + 'b list" where
  "map_err f [] = Inr []"
| "map_err f (x # xs) =
     (case f x of
        Inl e \<Rightarrow> Inl e
      | Inr y \<Rightarrow> (case map_err f xs of Inl e \<Rightarrow> Inl e | Inr ys \<Rightarrow> Inr (y # ys)))"

text \<open>Truth value of an object, as \<^verbatim>\<open>if x\<close>, \<^verbatim>\<open>not x\<close> and \<^verbatim>\<open>x or y\<close> test it.\<close>

fun truthy :: "json \<Rightarrow> bool" where
  "truthy JNull = False"
| "truthy (JBool b) = b"
| "truthy (JInt n) = (n \<noteq> 0)"
| "truthy (JStr s) = (s \<noteq> [])"
| "truthy (JArr xs) = (xs \<noteq> [])"
| "truthy (JObj kvs) = (kvs \<noteq> [])"

definition py_or :: "json \<Rightarrow> json \<Rightarrow> json" where
  "py_or a b = (if truthy a then a else b)"

text \<open>
  \<^verbatim>\<open>x.get(key, default)\<close>: only a \<^verbatim>\<open>dict\<close> has the method, any other object raises
  AttributeError. \<^verbatim>\<open>x.get(key)\<close> is the call with default \<^verbatim>\<open>None\<close>.
\<close>

definition dict_get :: "(ustring \<times> json) list \<Rightarrow> ustring \<Rightarrow> json \<Rightarrow> json" where
  "dict_get kvs k d = (case map_of kvs k of None \<Rightarrow> d | Some v \<Rightarrow> v)"

fun py_get :: "json \<Rightarrow> ustring \<Rightarrow> json \<Rightarrow> py_error + json" where
  "py_get (JObj kvs) k d = Inr (dict_get kvs k d)"
| "py_get _ k d = Inl AttributeError"

text \<open>
  \<^verbatim>\<open>for x in v\<close>: a list yields its elements, a string its characters, a dict its keys;
  \<^verbatim>\<open>None\<close>, a bool and an int are not iterable (TypeError).
\<close>

fun py_iter :: "json \<Rightarrow> py_error + json list" where
  "py_iter (JArr xs) = Inr xs"
| "py_iter (JStr s) = Inr (map (\<lambda>c. JStr [c]) s)"
| "py_iter (JObj kvs) = Inr (map (\<lambda>kv. JStr (fst kv)) kvs)"
| "py_iter _ = Inl TypeError"

text \<open>\<^verbatim>\<open>v == n\<close> for an int \<open>n\<close>: \<^verbatim>\<open>True == 1\<close> and \<^verbatim>\<open>False == 0\<close> hold in Python.\<close>

fun py_eq_int :: "json \<Rightarrow> int \<Rightarrow> bool" where
  "py_eq_int (JInt m) n = (m = n)"
| "py_eq_int (JBool b) n = ((if b then 1 else 0) = n)"
| "py_eq_int _ n = False"

text \<open>The slice \<^verbatim>\<open>s[:k]\<close>; a negative \<open>k\<close> counts from the end.\<close>

definition py_prefix :: "'a list \<Rightarrow> int \<Rightarrow> 'a list" where
  "py_prefix s k = (if 0 \<le> k then take (nat k) s else take (nat (int (length s) + k)) s)"

text \<open>\<^verbatim>\<open>sep.join(parts)\<close>.\<close>

fun join :: "ustring \<Rightarrow> ustring list \<Rightarrow> ustring" where
  "join sep [] = []"
| "join sep [p] = p"
| "join sep (p # q # ps) = p @ sep @ join sep (q # ps)"

text \<open>\<^verbatim>\<open>str(n)\<close> for an int: decimal digits, a minus sign for a negative number.\<close>

fun digits :: "nat \<Rightarrow> ustring" where
  "digits n = (if n < 10 then [48 + n] else digits (n div 10) @ [48 + n mod 10])"

declare digits.simps [simp del]

definition str_of_int :: "int \<Rightarrow> ustring" where
  "str_of_int n = (if n < 0 then 45 # digits (nat (- n)) else digits (nat n))"

text \<open>
  What the viewer takes from Python's standard library and the model takes as given:
  \<^verbatim>\<open>json.loads\<close> on a string (\<open>None\<close> when it raises; every exception it raises on a string
  is an \<^verbatim>\<open>Exception\<close>, which the viewer catches), \<^verbatim>\<open>json.dumps(v, ensure_ascii=False)\<close> on a
  decoded value (\<open>Inl\<close> the exception when it raises, as it does on a value nested deeper
  than the interpreter's recursion limit allows; the viewer calls it outside any \<^verbatim>\<open>try\<close>),
  \<^verbatim>\<open>repr\<close> of a list or dict (what an f-string inserts for such a value) and
  \<^verbatim>\<open>textwrap.fill(line, width=width)\<close> for a positive width. The theorems hold for every
  choice of these functions.
\<close>

record pylib =
  json_loads :: "ustring \<Rightarrow> json option"
  json_dumps :: "json \<Rightarrow> py_error + ustring"
  py_repr :: "json \<Rightarrow> ustring"
  fill :: "ustring \<Rightarrow> int \<Rightarrow> ustring"

text \<open>The text an f-string inserts for \<^verbatim>\<open>{v}\<close>, that is \<^verbatim>\<open>str(v)\<close>.\<close>

fun py_format :: "pylib \<Rightarrow> json \<Rightarrow> ustring" where
  "py_format lib (JStr s) = s"
| "py_format lib (JInt n) = str_of_int n"
| "py_format lib (JBool b) = (if b then ustr ''True'' else ustr ''False'')"
| "py_format lib JNull = ustr ''None''"
| "py_format lib v = py_repr lib v"

section \<open>Argument compaction\<close>

text \<open>
  \<^verbatim>\<open>_compact_args(arg_str, max_len=200)\<close>. The argument is whatever the tool call carries
  under \<^verbatim>\<open>arguments\<close>. A falsy argument returns the empty string. \<^verbatim>\<open>json.loads\<close> raises
  TypeError on anything but a string, which the \<^verbatim>\<open>except\<close> clause catches, and the handler's
  \<^verbatim>\<open>arg_str.replace\<close> then raises AttributeError, which escapes. The \<^verbatim>\<open>try\<close> covers
  \<^verbatim>\<open>json.loads\<close> only: an exception of \<^verbatim>\<open>json.dumps\<close> in \<^verbatim>\<open>trunc\<close> escapes as well.
\<close>

definition replace_newlines :: "ustring \<Rightarrow> ustring" where
  "replace_newlines s = map (\<lambda>c. if c = 10 then 32 else c) s"

definition cap :: "ustring \<Rightarrow> int \<Rightarrow> ustring" where
  "cap s max_len = (if int (length s) \<le> max_len then s else py_prefix s (max_len - 1) @ ellipsis)"

definition trunc :: "pylib \<Rightarrow> json \<Rightarrow> py_error + ustring" where
  "trunc lib v =
     bind_err (json_dumps lib v)
       (\<lambda>s. Inr (if length s \<le> 80 then s else take 79 s @ ellipsis))"

definition compact_part :: "pylib \<Rightarrow> ustring \<times> json \<Rightarrow> py_error + ustring" where
  "compact_part lib kv = bind_err (trunc lib (snd kv)) (\<lambda>t. Inr (fst kv @ ustr ''='' @ t))"

definition compact_args :: "pylib \<Rightarrow> json \<Rightarrow> int \<Rightarrow> py_error + ustring" where
  "compact_args lib arg_str max_len =
     (if \<not> truthy arg_str then Inr []
      else case arg_str of
        JStr a \<Rightarrow>
          (case json_loads lib a of
             None \<Rightarrow> Inr (cap (replace_newlines a) max_len)
           | Some args \<Rightarrow>
               bind_err
                 (case args of
                    JObj kvs \<Rightarrow>
                      bind_err (map_err (compact_part lib) kvs)
                        (\<lambda>parts. Inr (join (ustr '', '') parts))
                  | _ \<Rightarrow> trunc lib args)
                 (\<lambda>out. Inr (cap out max_len)))
      | _ \<Rightarrow> Inl AttributeError)"

section \<open>Colour and wrapping\<close>

text \<open>The keys of the \<^verbatim>\<open>ANSI\<close> table and their escape sequences (\<open>27\<close> is ESC).\<close>

datatype ansi_code = Reset | Dim | Bold | User | Assistant | Tool | Meta | Error

fun ANSI :: "ansi_code \<Rightarrow> ustring" where
  "ANSI Reset = 27 # ustr ''[0m''"
| "ANSI Dim = 27 # ustr ''[2m''"
| "ANSI Bold = 27 # ustr ''[1m''"
| "ANSI User = 27 # ustr ''[92m''"
| "ANSI Assistant = 27 # ustr ''[96m''"
| "ANSI Tool = 27 # ustr ''[95m''"
| "ANSI Meta = 27 # ustr ''[90m''"
| "ANSI Error = 27 # ustr ''[91m''"

definition color_text :: "ustring \<Rightarrow> ansi_code \<Rightarrow> bool \<Rightarrow> ustring" where
  "color_text text code enable = (if enable then ANSI code @ text @ ANSI Reset else text)"

text \<open>
  \<^verbatim>\<open>str.isspace\<close> on one character, which \<^verbatim>\<open>str.strip()\<close> uses, and the line boundaries of
  \<^verbatim>\<open>str.splitlines\<close>.
\<close>

definition is_space :: "nat \<Rightarrow> bool" where
  "is_space c \<longleftrightarrow>
     (9 \<le> c \<and> c \<le> 13) \<or> (28 \<le> c \<and> c \<le> 32) \<or> c = 133 \<or> c = 160 \<or> c = 5760 \<or>
     (8192 \<le> c \<and> c \<le> 8202) \<or> c = 8232 \<or> c = 8233 \<or> c = 8239 \<or> c = 8287 \<or> c = 12288"

definition is_linebreak :: "nat \<Rightarrow> bool" where
  "is_linebreak c \<longleftrightarrow>
     (10 \<le> c \<and> c \<le> 13) \<or> (28 \<le> c \<and> c \<le> 30) \<or> c = 133 \<or> c = 8232 \<or> c = 8233"

definition strip :: "ustring \<Rightarrow> ustring" where
  "strip s = rev (dropWhile is_space (rev (dropWhile is_space s)))"

text \<open>
  \<^verbatim>\<open>s.splitlines(keepends)\<close>: \<open>cur\<close> is the line being read. A carriage return followed by
  a line feed is one boundary; a last line without a boundary is kept unless it is empty.
\<close>

fun splitlines_from :: "bool \<Rightarrow> ustring \<Rightarrow> ustring \<Rightarrow> ustring list" where
  "splitlines_from keepends cur [] = (if cur = [] then [] else [cur])"
| "splitlines_from keepends cur [c] =
     (if is_linebreak c then [cur @ (if keepends then [c] else [])] else [cur @ [c]])"
| "splitlines_from keepends cur (c # d # cs) =
     (if c = 13 \<and> d = 10 then
        (cur @ (if keepends then [c, d] else [])) # splitlines_from keepends [] cs
      else if is_linebreak c then
        (cur @ (if keepends then [c] else [])) # splitlines_from keepends [] (d # cs)
      else splitlines_from keepends (cur @ [c]) (d # cs))"

definition splitlines :: "ustring \<Rightarrow> bool \<Rightarrow> ustring list" where
  "splitlines s keepends = splitlines_from keepends [] s"

text \<open>\<^verbatim>\<open>textwrap.indent(text, prefix)\<close>: the prefix goes before every line that is not blank.\<close>

definition indent :: "ustring \<Rightarrow> ustring \<Rightarrow> ustring" where
  "indent text p =
     concat (map (\<lambda>line. if strip line \<noteq> [] then p @ line else line) (splitlines text True))"

definition startswith :: "ustring \<Rightarrow> ustring \<Rightarrow> bool" where
  "startswith s p \<longleftrightarrow> take (length p) s = p"

text \<open>
  \<^verbatim>\<open>_wrap(text, width)\<close>. A non-positive width returns the argument as it is, whatever its
  type; otherwise \<^verbatim>\<open>text.splitlines()\<close> needs a string.
\<close>

definition wrap_line :: "pylib \<Rightarrow> int \<Rightarrow> ustring \<Rightarrow> ustring" where
  "wrap_line lib width line =
     (if list_ex (startswith (strip line))
           [ustr ''```'', ustr ''> '', ustr ''- '', ustr ''* '']
      then line else fill lib line width)"

definition wrap :: "pylib \<Rightarrow> json \<Rightarrow> int \<Rightarrow> py_error + json" where
  "wrap lib text width =
     (if width \<le> 0 then Inr text
      else case text of
        JStr s \<Rightarrow> Inr (JStr (join [10] (map (wrap_line lib width) (splitlines s False))))
      | _ \<Rightarrow> Inl AttributeError)"

section \<open>The tool-call index\<close>

text \<open>
  \<^verbatim>\<open>id2call\<close> is a Python dict keyed by whatever the tool call carries as identifier. Equal
  objects are one key, and \<^verbatim>\<open>True == 1\<close>, so a bool is keyed as its int; a list or a dict is
  unhashable and using it as a key raises TypeError.
\<close>

datatype pykey = KNone | KInt int | KStr ustring

fun key_of :: "json \<Rightarrow> pykey option" where
  "key_of JNull = Some KNone"
| "key_of (JBool b) = Some (KInt (if b then 1 else 0))"
| "key_of (JInt n) = Some (KInt n)"
| "key_of (JStr s) = Some (KStr s)"
| "key_of (JArr xs) = None"
| "key_of (JObj kvs) = None"

type_synonym call_index = "pykey \<rightharpoonup> json \<times> ustring"

text \<open>\<^verbatim>\<open>func = (tc or {}).get("function") or {}\<close>\<close>

definition call_function :: "json \<Rightarrow> py_error + json" where
  "call_function tc =
     bind_err (py_get (py_or tc (JObj [])) (ustr ''function'') JNull)
       (\<lambda>f. Inr (py_or f (JObj [])))"

text \<open>The body of the inner loop that fills \<^verbatim>\<open>id2call\<close>, for one tool call \<open>tc\<close>.\<close>

definition index_call :: "pylib \<Rightarrow> call_index \<Rightarrow> json \<Rightarrow> py_error + call_index" where
  "index_call lib id2call tc =
     bind_err (call_function tc) (\<lambda>func.
     bind_err (py_get func (ustr ''name'') (JStr [])) (\<lambda>fname.
     bind_err (py_get func (ustr ''arguments'') (JStr [])) (\<lambda>fargs.
     bind_err (compact_args lib fargs 200) (\<lambda>comp.
     bind_err (py_get tc (ustr ''id'') JNull) (\<lambda>i.
     bind_err (if truthy i then Inr i else py_get tc (ustr ''tool_call_id'') JNull) (\<lambda>call_id.
       if truthy call_id then
         (case key_of call_id of
            None \<Rightarrow> Inl TypeError
          | Some k \<Rightarrow> Inr (id2call(k \<mapsto> (fname, comp))))
       else Inr id2call))))))"

text \<open>The body of the outer loop, for one turn.\<close>

definition index_turn :: "pylib \<Rightarrow> call_index \<Rightarrow> json \<Rightarrow> py_error + call_index" where
  "index_turn lib id2call turn =
     bind_err (py_get turn (ustr ''role'') JNull) (\<lambda>role.
       if role = JStr (ustr ''assistant'') then
         bind_err (py_get turn (ustr ''tool_calls'') JNull) (\<lambda>tcs.
         bind_err (py_iter (py_or tcs (JArr []))) (\<lambda>calls.
           fold_err (index_call lib) id2call calls))
       else Inr id2call)"

definition build_index :: "pylib \<Rightarrow> json list \<Rightarrow> py_error + call_index" where
  "build_index lib traj = fold_err (index_turn lib) Map.empty traj"

section \<open>Rendering one turn\<close>

text \<open>
  The search for the first user turn: \<^verbatim>\<open>start_idx\<close> stays \<open>0\<close> when the loop finds none.
  \<open>i\<close> is the index of the head of the list.
\<close>

definition is_user :: "json \<Rightarrow> bool" where
  "is_user turn =
     (case turn of
        JObj kvs \<Rightarrow> dict_get kvs (ustr ''role'') JNull = JStr (ustr ''user'')
      | _ \<Rightarrow> False)"

fun find_start :: "nat \<Rightarrow> json list \<Rightarrow> nat" where
  "find_start i [] = 0"
| "find_start i (turn # rest) = (if is_user turn then i else find_start (Suc i) rest)"

definition start_idx :: "json list \<Rightarrow> nat" where
  "start_idx traj = find_start 0 traj"

text \<open>One entry of the summary an assistant turn without content gets.\<close>

definition call_summary :: "pylib \<Rightarrow> json \<Rightarrow> py_error + ustring" where
  "call_summary lib tc =
     bind_err (call_function tc) (\<lambda>func.
     bind_err (py_get func (ustr ''name'') (JStr (ustr ''<?>''))) (\<lambda>fname.
     bind_err (py_get func (ustr ''arguments'') (JStr [])) (\<lambda>fargs.
     bind_err (compact_args lib fargs 200) (\<lambda>comp.
       Inr (if comp \<noteq> [] then py_format lib fname @ ustr ''('' @ comp @ ustr '')''
            else py_format lib fname @ ustr ''()'')))))"

definition assistant_msg :: "pylib \<Rightarrow> json \<Rightarrow> json \<Rightarrow> py_error + json" where
  "assistant_msg lib turn raw_content =
     (if raw_content = JNull then
        bind_err (py_get turn (ustr ''tool_calls'') JNull) (\<lambda>tcs.
          let tool_calls = py_or tcs (JArr []) in
          if truthy tool_calls then
            bind_err (py_iter tool_calls) (\<lambda>calls.
            bind_err (map_err (call_summary lib) calls) (\<lambda>parts.
              Inr (JStr (arrow @ ustr '' tool call(s): '' @ join (ustr ''; '') parts))))
          else Inr (JStr []))
      else Inr raw_content)"

text \<open>The label of a tool turn; \<^verbatim>\<open>tool_call_id in id2call\<close> hashes the identifier.\<close>

definition tool_tag ::
  "pylib \<Rightarrow> call_index \<Rightarrow> bool \<Rightarrow> json \<Rightarrow> json \<Rightarrow> py_error + ustring" where
  "tool_tag lib id2call color tool_name tool_call_id =
     bind_err (if truthy tool_call_id then
                 (case key_of tool_call_id of
                    None \<Rightarrow> Inl TypeError
                  | Some k \<Rightarrow> Inr (id2call k))
               else Inr None) (\<lambda>hit.
       let fc = (case hit of Some p \<Rightarrow> p | None \<Rightarrow> (JStr [], []));
           fname = fst fc;
           comp = snd fc;
           display = py_or tool_name (py_or fname (JStr []))
       in Inr (if truthy display \<and> comp \<noteq> [] then
                 color_text (ustr ''[tool:'' @ py_format lib display @ ustr ''('' @ comp @ ustr '')]'')
                   Tool color
               else if truthy display then
                 color_text (ustr ''[tool:'' @ py_format lib display @ ustr '']'') Tool color
               else color_text (ustr ''[tool]'') Tool color))"

text \<open>The dispatch on the role: the label \<^verbatim>\<open>role_tag\<close> and the message \<^verbatim>\<open>msg\<close> of a turn.\<close>

definition turn_parts ::
  "pylib \<Rightarrow> call_index \<Rightarrow> bool \<Rightarrow> json \<Rightarrow> py_error + ustring \<times> json" where
  "turn_parts lib id2call color turn =
     bind_err (py_get turn (ustr ''role'') (JStr (ustr ''assistant''))) (\<lambda>role.
     bind_err (py_get turn (ustr ''content'') JNull) (\<lambda>raw_content.
     bind_err (py_get turn (ustr ''name'') JNull) (\<lambda>tool_name.
     bind_err (py_get turn (ustr ''tool_call_id'') JNull) (\<lambda>tool_call_id.
       if role = JStr (ustr ''assistant'') then
         bind_err (assistant_msg lib turn raw_content) (\<lambda>msg.
           Inr (color_text (ustr ''[assistant]'') Assistant color, msg))
       else if role = JStr (ustr ''user'') then
         Inr (color_text (ustr ''[user]'') User color, py_or raw_content (JStr []))
       else if role = JStr (ustr ''tool'') then
         bind_err (tool_tag lib id2call color tool_name tool_call_id) (\<lambda>role_tag.
           Inr (role_tag, py_or raw_content (JStr [])))
       else if role = JStr (ustr ''system'') then
         Inr (color_text (ustr ''[system]'') Meta color, py_or raw_content (JStr []))
       else
         Inr (color_text (ustr ''['' @ py_format lib role @ ustr '']'') Meta color,
              py_or raw_content (JStr []))))))"

section \<open>Printing\<close>

text \<open>
  The outcome of a run: the arguments of the calls of \<^verbatim>\<open>print\<close> made so far, in order, and
  whether the run returned or an exception escaped after them.
\<close>

datatype outcome = Returns "ustring list" | Raises "ustring list" py_error

fun printed :: "outcome \<Rightarrow> ustring list" where
  "printed (Returns out) = out"
| "printed (Raises out e) = out"

fun after :: "ustring list \<Rightarrow> outcome \<Rightarrow> outcome" where
  "after out (Returns out') = Returns (out @ out')"
| "after out (Raises out' e) = Raises (out @ out') e"

fun seq :: "outcome \<Rightarrow> outcome \<Rightarrow> outcome" where
  "seq (Returns out) rest = after out rest"
| "seq (Raises out e) rest = Raises out e"

text \<open>The body printed under a label, from the wrapped message.\<close>

definition body_text :: "ustring \<Rightarrow> bool \<Rightarrow> ustring" where
  "body_text msg_wrapped color =
     (if strip msg_wrapped \<noteq> [] then indent msg_wrapped (ustr ''  '')
      else indent (color_text (ustr ''(no content)'') Dim color) (ustr ''  ''))"

text \<open>
  One pass of the printing loop. The message is wrapped before the label is printed, and
  \<^verbatim>\<open>msg_wrapped.strip()\<close> is called after: a message that is not a string raises before the
  label when the width is positive and after it otherwise.
\<close>

definition print_turn :: "pylib \<Rightarrow> call_index \<Rightarrow> int \<Rightarrow> bool \<Rightarrow> json \<Rightarrow> outcome" where
  "print_turn lib id2call width color turn =
     (case turn_parts lib id2call color turn of
        Inl e \<Rightarrow> Raises [] e
      | Inr tm \<Rightarrow>
          (case wrap lib (snd tm) width of
             Inl e \<Rightarrow> Raises [] e
           | Inr msg_wrapped \<Rightarrow>
               (case msg_wrapped of
                  JStr w \<Rightarrow> Returns [fst tm @ ustr '' '', body_text w color]
                | _ \<Rightarrow> Raises [fst tm @ ustr '' ''] AttributeError)))"

fun print_turns :: "pylib \<Rightarrow> call_index \<Rightarrow> int \<Rightarrow> bool \<Rightarrow> json list \<Rightarrow> outcome" where
  "print_turns lib id2call width color [] = Returns []"
| "print_turns lib id2call width color (turn # rest) =
     seq (print_turn lib id2call width color turn) (print_turns lib id2call width color rest)"

section \<open>Locating the record and printing the conversation\<close>

text \<open>
  The test of the loop over the entries,
  \<^verbatim>\<open>isinstance(entry, dict) and entry.get("task_id") == task_id and entry.get("trial") == trial\<close>,
  and the loop, which stops at the first entry that passes it.
\<close>

definition record_matches :: "json \<Rightarrow> int \<Rightarrow> int \<Rightarrow> bool" where
  "record_matches entry task_id trial =
     (case entry of
        JObj kvs \<Rightarrow>
          py_eq_int (dict_get kvs (ustr ''task_id'') JNull) task_id \<and>
          py_eq_int (dict_get kvs (ustr ''trial'') JNull) trial
      | _ \<Rightarrow> False)"

fun find_match :: "json list \<Rightarrow> int \<Rightarrow> int \<Rightarrow> json option" where
  "find_match [] task_id trial = None"
| "find_match (entry # rest) task_id trial =
     (if record_matches entry task_id trial then Some entry
      else find_match rest task_id trial)"

text \<open>
  \<^verbatim>\<open>v[key]\<close> inside the \<^verbatim>\<open>try\<close> that reads the instruction: \<open>None\<close> when it raises (a missing
  key, or an object that is not a dict), which the \<^verbatim>\<open>except\<close> clause turns into no
  instruction.
\<close>

definition py_item :: "json \<Rightarrow> ustring \<Rightarrow> json option" where
  "py_item v k = (case v of JObj kvs \<Rightarrow> map_of kvs k | _ \<Rightarrow> None)"

definition instruction_of :: "json \<Rightarrow> json" where
  "instruction_of match =
     (case py_item match (ustr ''info'') of
        None \<Rightarrow> JNull
      | Some info \<Rightarrow>
          (case py_item info (ustr ''task'') of
             None \<Rightarrow> JNull
           | Some task \<Rightarrow>
               (case py_item task (ustr ''instruction'') of
                  None \<Rightarrow> JNull
                | Some instr \<Rightarrow> instr)))"

definition header_text :: "int \<Rightarrow> int \<Rightarrow> ustring" where
  "header_text task_id trial =
     ustr ''Conversation '' @ em_dash @ ustr '' task_id='' @ str_of_int task_id @
     ustr '', trial='' @ str_of_int trial"

definition rule_line :: "ustring \<Rightarrow> bool \<Rightarrow> ustring" where
  "rule_line header color = color_text (replicate (length header) rule_char) Meta color"

definition print_instruction :: "pylib \<Rightarrow> json \<Rightarrow> ustring \<Rightarrow> int \<Rightarrow> bool \<Rightarrow> outcome" where
  "print_instruction lib instr header width color =
     (if truthy instr then
        after [color_text (ustr ''[instruction]'') Bold color]
          (case wrap lib instr width of
             Inl e \<Rightarrow> Raises [] e
           | Inr w \<Rightarrow>
               (case w of
                  JStr s \<Rightarrow> Returns [indent s (ustr ''  ''), rule_line header color]
                | _ \<Rightarrow> Raises [] AttributeError))
      else Returns [])"

text \<open>The two passes over the turns: the index first, then the printing loop.\<close>

definition print_traj :: "pylib \<Rightarrow> json \<Rightarrow> int \<Rightarrow> bool \<Rightarrow> outcome" where
  "print_traj lib traj width color =
     (case py_iter traj of
        Inl e \<Rightarrow> Raises [] e
      | Inr turns \<Rightarrow>
          (case build_index lib turns of
             Inl e \<Rightarrow> Raises [] e
           | Inr id2call \<Rightarrow> print_turns lib id2call width color (drop (start_idx turns) turns)))"

definition no_record_line :: "int \<Rightarrow> int \<Rightarrow> bool \<Rightarrow> ustring" where
  "no_record_line task_id trial color =
     color_text (ustr ''[error] No record found for task_id='' @ str_of_int task_id @
                 ustr '', trial='' @ str_of_int trial @ ustr ''.'') Error color"

text \<open>
  \<^verbatim>\<open>print_conversation\<close>. Reading the file is outside the model: \<open>loaded\<close> says what the
  first two steps found, a missing file, a file that \<^verbatim>\<open>json.load\<close> rejects with a message,
  or the decoded value.
\<close>

datatype loaded = NoFile | BadJson ustring | Loaded json

definition render_record :: "pylib \<Rightarrow> json \<Rightarrow> int \<Rightarrow> int \<Rightarrow> int \<Rightarrow> bool \<Rightarrow> outcome" where
  "render_record lib match task_id trial width color =
     (case py_get match (ustr ''traj'') (JArr []) of
        Inl e \<Rightarrow> Raises [] e
      | Inr traj \<Rightarrow>
          if \<not> truthy traj then
            Returns [color_text (ustr ''[error] No '' @ [39] @ ustr ''traj'' @ [39] @
                                 ustr '' found in the selected record.'') Error color]
          else
            (let header = header_text task_id trial
             in after [color_text header Bold color, rule_line header color]
                  (seq (print_instruction lib (instruction_of match) header width color)
                       (print_traj lib traj width color))))"

definition print_conversation ::
  "pylib \<Rightarrow> ustring \<Rightarrow> loaded \<Rightarrow> int \<Rightarrow> int \<Rightarrow> int \<Rightarrow> bool \<Rightarrow> outcome" where
  "print_conversation lib file_path file task_id trial width color =
     (case file of
        NoFile \<Rightarrow>
          Returns [color_text (ustr ''[error] File not found: '' @ file_path) Error color]
      | BadJson e \<Rightarrow>
          Returns [color_text (ustr ''[error] Failed to parse JSON: '' @ e) Error color]
      | Loaded data \<Rightarrow>
          (case data of
             JArr entries \<Rightarrow>
               (case find_match entries task_id trial of
                  None \<Rightarrow> Returns [no_record_line task_id trial color]
                | Some match \<Rightarrow> render_record lib match task_id trial width color)
           | _ \<Rightarrow>
               Returns [color_text (ustr ''[error] Expected a list at JSON top level.'')
                          Error color]))"

section \<open>The conversation data model\<close>

text \<open>
  The shape of a conversation record that the viewer is written for. A tool call is a
  mapping whose identifiers (\<^verbatim>\<open>id\<close>, \<^verbatim>\<open>tool_call_id\<close>) are strings or missing and whose
  function descriptor, when present, is a mapping with a string (or no) \<^verbatim>\<open>name\<close> and
  \<^verbatim>\<open>arguments\<close>. A turn is a mapping whose \<^verbatim>\<open>role\<close>, \<^verbatim>\<open>content\<close>, \<^verbatim>\<open>name\<close> and \<^verbatim>\<open>tool_call_id\<close>
  are strings or missing and whose \<^verbatim>\<open>tool_calls\<close>, when present, is a list of tool calls.
\<close>

definition str_or_none :: "json \<Rightarrow> bool" where
  "str_or_none v = (case v of JNull \<Rightarrow> True | JStr s \<Rightarrow> True | _ \<Rightarrow> False)"

definition is_tool_call :: "json \<Rightarrow> bool" where
  "is_tool_call tc =
     (case tc of
        JObj kvs \<Rightarrow>
          str_or_none (dict_get kvs (ustr ''id'') JNull) \<and>
          str_or_none (dict_get kvs (ustr ''tool_call_id'') JNull) \<and>
          (case dict_get kvs (ustr ''function'') JNull of
             JNull \<Rightarrow> True
           | JObj f \<Rightarrow>
               str_or_none (dict_get f (ustr ''name'') JNull) \<and>
               str_or_none (dict_get f (ustr ''arguments'') JNull)
           | _ \<Rightarrow> False)
      | _ \<Rightarrow> False)"

definition is_turn :: "json \<Rightarrow> bool" where
  "is_turn turn =
     (case turn of
        JObj kvs \<Rightarrow>
          str_or_none (dict_get kvs (ustr ''role'') JNull) \<and>
          str_or_none (dict_get kvs (ustr ''content'') JNull) \<and>
          str_or_none (dict_get kvs (ustr ''name'') JNull) \<and>
          str_or_none (dict_get kvs (ustr ''tool_call_id'') JNull) \<and>
          (case dict_get kvs (ustr ''tool_calls'') JNull of
             JNull \<Rightarrow> True
           | JArr tcs \<Rightarrow> list_all is_tool_call tcs
           | _ \<Rightarrow> False)
      | _ \<Rightarrow> False)"

text \<open>
  The arguments a tool call carries, and whether their compaction returns, for one tool
  call and for the tool calls of a turn. On a string, compaction can only fail where
  \<^verbatim>\<open>json.dumps\<close> raises.
\<close>

definition call_arguments :: "json \<Rightarrow> json" where
  "call_arguments tc =
     (case call_function tc of
        Inr (JObj f) \<Rightarrow> dict_get f (ustr ''arguments'') (JStr [])
      | _ \<Rightarrow> JStr [])"

definition compacts :: "pylib \<Rightarrow> json \<Rightarrow> bool" where
  "compacts lib tc =
     (case compact_args lib (call_arguments tc) 200 of Inr out \<Rightarrow> True | Inl e \<Rightarrow> False)"

definition turn_compacts :: "pylib \<Rightarrow> json \<Rightarrow> bool" where
  "turn_compacts lib turn =
     (case turn of
        JObj kvs \<Rightarrow>
          (case dict_get kvs (ustr ''tool_calls'') JNull of
             JArr tcs \<Rightarrow> list_all (compacts lib) tcs
           | _ \<Rightarrow> True)
      | _ \<Rightarrow> True)"

section \<open>The tool-call index, as a table of the tool calls in document order\<close>

text \<open>
  The tool calls of the assistant turns, in document order; the identifier a tool call
  carries (either key name); the pair of function name and compacted arguments that the
  index holds for it; and the last tool call of a list that carries a given key.
\<close>

definition turn_calls :: "json \<Rightarrow> json list" where
  "turn_calls turn =
     (case turn of
        JObj kvs \<Rightarrow>
          if dict_get kvs (ustr ''role'') JNull = JStr (ustr ''assistant'') then
            (case py_iter (py_or (dict_get kvs (ustr ''tool_calls'') JNull) (JArr [])) of
               Inr tcs \<Rightarrow> tcs
             | Inl e \<Rightarrow> [])
          else []
      | _ \<Rightarrow> [])"

definition document_calls :: "json list \<Rightarrow> json list" where
  "document_calls traj = concat (map turn_calls traj)"

definition call_identifier :: "json \<Rightarrow> json" where
  "call_identifier tc =
     (case tc of
        JObj kvs \<Rightarrow>
          py_or (dict_get kvs (ustr ''id'') JNull) (dict_get kvs (ustr ''tool_call_id'') JNull)
      | _ \<Rightarrow> JNull)"

definition carries :: "pykey \<Rightarrow> json \<Rightarrow> bool" where
  "carries k tc \<longleftrightarrow> truthy (call_identifier tc) \<and> key_of (call_identifier tc) = Some k"

definition call_pair :: "pylib \<Rightarrow> json \<Rightarrow> json \<times> ustring" where
  "call_pair lib tc =
     (case call_function tc of
        Inr (JObj f) \<Rightarrow>
          (dict_get f (ustr ''name'') (JStr []),
           (case compact_args lib (dict_get f (ustr ''arguments'') (JStr [])) 200 of
              Inr compacted \<Rightarrow> compacted
            | Inl e \<Rightarrow> []))
      | _ \<Rightarrow> (JStr [], []))"

definition last_call :: "pykey \<Rightarrow> json list \<Rightarrow> json option" where
  "last_call k calls =
     (case filter (carries k) calls of [] \<Rightarrow> None | tc # tcs \<Rightarrow> Some (last (tc # tcs)))"

section \<open>Reading the keys back from a compacted mapping\<close>

text \<open>
  The reading of \<^verbatim>\<open>key=value\<close> segments that the round-trip property speaks of: the
  compacted string is cut at every separator \<^verbatim>\<open>", "\<close>, a truncation marker at the end of a
  segment is dropped, and the key of a segment is its text before the first \<^verbatim>\<open>=\<close>. The empty
  string has no segment.
\<close>

fun has_sep :: "ustring \<Rightarrow> bool" where
  "has_sep (c # d # cs) = ((c = 44 \<and> d = 32) \<or> has_sep (d # cs))"
| "has_sep _ = False"

fun segments :: "ustring \<Rightarrow> ustring \<Rightarrow> ustring list" where
  "segments cur [] = [cur]"
| "segments cur [c] = [cur @ [c]]"
| "segments cur (c # d # cs) =
     (if c = 44 \<and> d = 32 then cur # segments [] cs else segments (cur @ [c]) (d # cs))"

definition drop_marker :: "ustring \<Rightarrow> ustring" where
  "drop_marker seg = (if seg \<noteq> [] \<and> [last seg] = ellipsis then butlast seg else seg)"

definition segment_key :: "ustring \<Rightarrow> ustring" where
  "segment_key seg = takeWhile (\<lambda>c. c \<noteq> 61) (drop_marker seg)"

definition reparse_keys :: "ustring \<Rightarrow> ustring list" where
  "reparse_keys out = (if out = [] then [] else map segment_key (segments [] out))"

section \<open>A sample of the standard library, for running the model\<close>

text \<open>
  Concrete runs need values of the library functions. \<open>encode\<close> is the text
  \<^verbatim>\<open>json.dumps(v, ensure_ascii=False)\<close> produces for the values of the model when it
  returns. \<open>sample_dumps\<close> says what CPython (3.11, with its default recursion limit of
  1000) does when the viewer calls \<^verbatim>\<open>json.dumps\<close>: it returns that text on a value nested
  less than 100 deep and raises RecursionError on the empty list wrapped in 992 lists.
  \<open>sample_loads\<close> lists what \<^verbatim>\<open>json.loads\<close> does on the argument strings of the examples
  below, and \<open>sample_fill\<close> what \<^verbatim>\<open>textwrap.fill\<close> does on a line that fits the width, has
  no white space but single blanks and none at its ends. Elsewhere they are left
  unspecified.
\<close>

definition hex_digit :: "nat \<Rightarrow> nat" where
  "hex_digit d = (if d < 10 then 48 + d else 87 + d)"

definition escape_char :: "nat \<Rightarrow> ustring" where
  "escape_char c =
     (if c = 34 then [92, 34]
      else if c = 92 then [92, 92]
      else if c = 10 then [92, 110]
      else if c = 13 then [92, 114]
      else if c = 9 then [92, 116]
      else if c = 8 then [92, 98]
      else if c = 12 then [92, 102]
      else if c < 32 then [92, 117, 48, 48, hex_digit (c div 16), hex_digit (c mod 16)]
      else [c])"

fun encode :: "json \<Rightarrow> ustring" where
  "encode JNull = ustr ''null''"
| "encode (JBool b) = (if b then ustr ''true'' else ustr ''false'')"
| "encode (JInt n) = str_of_int n"
| "encode (JStr s) = [34] @ concat (map escape_char s) @ [34]"
| "encode (JArr xs) = ustr ''['' @ join (ustr '', '') (map encode xs) @ ustr '']''"
| "encode (JObj kvs) =
     ustr ''{'' @
     join (ustr '', '')
       (map (\<lambda>kv. encode (JStr (fst kv)) @ ustr '': '' @ encode (snd kv)) kvs) @
     ustr ''}''"

fun nesting :: "json \<Rightarrow> nat" where
  "nesting (JArr xs) = Suc (foldr (\<lambda>x m. max (nesting x) m) xs 0)"
| "nesting (JObj kvs) = Suc (foldr (\<lambda>kv m. max (nesting (snd kv)) m) kvs 0)"
| "nesting _ = 0"

fun nested :: "nat \<Rightarrow> json" where
  "nested 0 = JArr []"
| "nested (Suc n) = JArr [nested n]"

definition deep_args :: ustring where
  "deep_args = replicate 993 91 @ replicate 993 93"

definition sample_dumps :: "json \<Rightarrow> py_error + ustring" where
  "sample_dumps v =
     (if nesting v < 100 then Inr (encode v)
      else if v = nested 992 then Inl RecursionError
      else undefined)"

definition sample_loads :: "ustring \<Rightarrow> json option" where
  \<open>sample_loads s =
     (if s = ustr ''{not json'' then None
      else if s = replicate 200 120 then None
      else if s = replicate 201 120 then None
      else if s = ustr ''{"x":1}'' then Some (JObj [(ustr ''x'', JInt 1)])
      else if s = ustr ''{"'' @ replicate 200 97 @ ustr ''": 1}''
        then Some (JObj [(replicate 200 97, JInt 1)])
      else if s = ustr ''{"k": "'' @ replicate 78 118 @ ustr ''"}''
        then Some (JObj [(ustr ''k'', JStr (replicate 78 118))])
      else if s = ustr ''{"k": "'' @ replicate 79 118 @ ustr ''"}''
        then Some (JObj [(ustr ''k'', JStr (replicate 79 118))])
      else if s = ustr ''{"q": "a, b=c"}''
        then Some (JObj [(ustr ''q'', JStr (ustr ''a, b=c''))])
      else if s = ustr ''{not'' @ [10] @ ustr ''json'' then None
      else if s = deep_args then Some (nested 992)
      else undefined)\<close>

definition sample_fill :: "ustring \<Rightarrow> int \<Rightarrow> ustring" where
  "sample_fill line width =
     (if int (length line) \<le> width \<and> list_all (\<lambda>c. c = 32 \<or> \<not> is_space c) line \<and>
         strip line = line
      then line else undefined)"

definition sample_lib :: pylib where
  "sample_lib =
     \<lparr>json_loads = sample_loads, json_dumps = sample_dumps, py_repr = (\<lambda>v. undefined),
      fill = sample_fill\<rparr>"

text \<open>A collection of records for the examples: two records carry the same identifiers.\<close>

definition sample_record :: "ustring \<Rightarrow> json" where
  "sample_record said =
     JObj [(ustr ''task_id'', JInt 1), (ustr ''trial'', JInt 0),
           (ustr ''traj'', JArr [JObj [(ustr ''role'', JStr (ustr ''user'')),
                                       (ustr ''content'', JStr said)]])]"

definition sample_records :: "json list" where
  "sample_records =
     [JStr (ustr ''note''),
      JObj [(ustr ''task_id'', JInt 2), (ustr ''trial'', JInt 1)],
      sample_record (ustr ''hi''),
      sample_record (ustr ''bye'')]"

text \<open>A tool call, a conversation that makes and answers it, and the index that conversation builds.\<close>

definition lookup_call :: json where
  \<open>lookup_call =
     JObj [(ustr ''id'', JStr (ustr ''c1'')),
           (ustr ''function'', JObj [(ustr ''name'', JStr (ustr ''lookup'')),
                                     (ustr ''arguments'', JStr (ustr ''{"x":1}''))])]\<close>

definition sample_traj :: "json list" where
  "sample_traj =
     [JObj [(ustr ''role'', JStr (ustr ''user'')), (ustr ''content'', JStr (ustr ''hi''))],
      JObj [(ustr ''role'', JStr (ustr ''assistant'')), (ustr ''content'', JNull),
            (ustr ''tool_calls'', JArr [lookup_call])],
      JObj [(ustr ''role'', JStr (ustr ''tool'')), (ustr ''name'', JStr (ustr ''search'')),
            (ustr ''tool_call_id'', JStr (ustr ''c1'')), (ustr ''content'', JStr (ustr ''result''))]]"

definition sample_index :: call_index where
  "sample_index = [KStr (ustr ''c1'') \<mapsto> (JStr (ustr ''lookup''), ustr ''x=1'')]"

text \<open>A conversation in which two tool calls carry the same identifier and one carries none.\<close>

definition search_call :: json where
  "search_call =
     JObj [(ustr ''tool_call_id'', JStr (ustr ''c1'')),
           (ustr ''function'', JObj [(ustr ''name'', JStr (ustr ''search''))])]"

definition anonymous_call :: json where
  "anonymous_call = JObj [(ustr ''function'', JObj [(ustr ''name'', JStr (ustr ''ping''))])]"

definition repeat_traj :: "json list" where
  "repeat_traj =
     [JObj [(ustr ''role'', JStr (ustr ''assistant'')),
            (ustr ''tool_calls'', JArr [lookup_call, anonymous_call])],
      JObj [(ustr ''role'', JStr (ustr ''user'')), (ustr ''content'', JStr (ustr ''again''))],
      JObj [(ustr ''role'', JStr (ustr ''assistant'')),
            (ustr ''tool_calls'', JArr [search_call])]]"

text \<open>A system turn, and a conversation without user turn.\<close>

definition system_turn :: json where
  "system_turn = JObj [(ustr ''role'', JStr (ustr ''system'')), (ustr ''content'', JStr (ustr ''be brief''))]"

definition no_user_traj :: "json list" where
  "no_user_traj =
     [system_turn,
      JObj [(ustr ''role'', JStr (ustr ''assistant'')), (ustr ''content'', JStr (ustr ''hello''))]]"

section \<open>Facts for running the model on concrete input\<close>

lemma ustr_eq_iff [simp]: "ustr a = ustr b \<longleftrightarrow> a = b"
  by (simp add: ustr_def inj_map_eq_map inj_of_char)

lemma ustr_Nil_iff [simp]: "ustr s = [] \<longleftrightarrow> s = []"
  by (simp add: ustr_def)

lemma str_of_int_0: "str_of_int 0 = ustr ''0''"
  by (simp add: str_of_int_def digits.simps ustr_def)

lemma str_of_int_1: "str_of_int 1 = ustr ''1''"
  by (simp add: str_of_int_def digits.simps ustr_def)

lemma replicate_numeral:
  "replicate (numeral v) x = x # replicate (numeral v - 1) x"
  by (simp add: numeral_eq_Suc)

lemma encode_plain:
  "\<forall>c \<in> set s. 32 \<le> c \<and> c \<noteq> 34 \<and> c \<noteq> 92 \<Longrightarrow> encode (JStr s) = 34 # s @ [34]"
proof -
  have "\<forall>c \<in> set s. 32 \<le> c \<and> c \<noteq> 34 \<and> c \<noteq> 92 \<Longrightarrow> concat (map escape_char s) = s"
    by (induction s) (auto simp: escape_char_def)
  then show "\<forall>c \<in> set s. 32 \<le> c \<and> c \<noteq> 34 \<and> c \<noteq> 92 \<Longrightarrow> encode (JStr s) = 34 # s @ [34]"
    by simp
qed

lemma sample_dumps_int: "sample_dumps (JInt n) = Inr (str_of_int n)"
  by (simp add: sample_dumps_def)

lemma sample_dumps_plain:
  "\<forall>c \<in> set s. 32 \<le> c \<and> c \<noteq> 34 \<and> c \<noteq> 92 \<Longrightarrow> sample_dumps (JStr s) = Inr (34 # s @ [34])"
  by (simp add: sample_dumps_def encode_plain del: encode.simps)

lemma nesting_nested: "nesting (nested n) = Suc n"
  by (induction n) simp_all

lemma nested_list: "\<exists>xs. nested n = JArr xs"
  by (cases n) simp_all

lemma sample_dumps_deep: "sample_dumps (nested 992) = Inl RecursionError"
  by (simp add: sample_dumps_def nesting_nested)

lemma deep_args_head: "deep_args = 91 # (replicate 992 91 @ replicate 993 93)"
proof -
  have "(993::nat) = Suc 992" by simp
  then have "replicate 993 (91::nat) = 91 # replicate 992 91"
    by (simp only: replicate_Suc)
  then show ?thesis by (simp add: deep_args_def)
qed

lemma deep_args_neq: "hd t \<noteq> 91 \<Longrightarrow> (deep_args = t) = False"
  by (auto simp: deep_args_head)

lemma sample_loads_deep: "sample_loads deep_args = Some (nested 992)"
  by (simp add: sample_loads_def deep_args_neq ustr_def)

lemma sample_loads_not_json: "sample_loads (ustr ''{not json'') = None"
  by (simp add: sample_loads_def)

lemma sample_loads_newline: "sample_loads (ustr ''{not'' @ [10] @ ustr ''json'') = None"
  by (simp add: sample_loads_def ustr_def replicate_numeral)


lemma sample_loads_201: "sample_loads (replicate 201 120) = None"
  by (simp add: sample_loads_def ustr_def replicate_numeral)



lemma sample_loads_x1: \<open>sample_loads (ustr ''{"x":1}'') = Some (JObj [(ustr ''x'', JInt 1)])\<close>
  by (simp add: sample_loads_def ustr_def replicate_numeral)

lemma sample_loads_long:
  \<open>sample_loads (ustr ''{"'' @ replicate 200 97 @ ustr ''": 1}'') =
     Some (JObj [(replicate 200 97, JInt 1)])\<close>
  by (simp add: sample_loads_def ustr_def replicate_numeral)

lemma sample_loads_q:
  \<open>sample_loads (ustr ''{"q": "a, b=c"}'') = Some (JObj [(ustr ''q'', JStr (ustr ''a, b=c''))])\<close>
  by (simp add: sample_loads_def ustr_def replicate_numeral)

lemma sample_lib_fields:
  "json_loads sample_lib = sample_loads" "json_dumps sample_lib = sample_dumps"
  "fill sample_lib = sample_fill"
  by (simp_all add: sample_lib_def)

lemmas run_defs =
  print_conversation_def render_record_def print_traj_def print_instruction_def
  instruction_of_def py_item_def header_text_def rule_line_def no_record_line_def
  build_index_def index_turn_def index_call_def call_function_def
  start_idx_def is_user_def
  print_turn_def turn_parts_def assistant_msg_def call_summary_def tool_tag_def
  body_text_def wrap_def wrap_line_def indent_def splitlines_def startswith_def strip_def
  is_space_def is_linebreak_def color_text_def
  compact_args_def compact_part_def trunc_def cap_def py_prefix_def replace_newlines_def
  bind_err_def dict_get_def py_or_def
  sample_lib_def sample_fill_def
  ellipsis_def arrow_def em_dash_def rule_char_def

section \<open>Properties of argument compaction\<close>

lemma length_replace_newlines [simp]: "length (replace_newlines s) = length s"
  by (simp add: replace_newlines_def)

lemma compact_args_unparsable:
  "json_loads lib s = None \<Longrightarrow> s \<noteq> [] \<Longrightarrow>
   compact_args lib (JStr s) max_len = Inr (cap (replace_newlines s) max_len)"
  by (simp add: compact_args_def)

lemma length_cap: "0 < max_len \<Longrightarrow> int (length (cap s max_len)) \<le> max_len"
  by (auto simp: cap_def py_prefix_def ellipsis_def)

lemma trunc_Inl: "trunc lib v = Inl e \<Longrightarrow> json_dumps lib v = Inl e"
  by (auto simp: trunc_def bind_err_def split: sum.splits)

lemma compact_part_Inl: "compact_part lib kv = Inl e \<Longrightarrow> json_dumps lib (snd kv) = Inl e"
  by (auto simp: compact_part_def bind_err_def dest: trunc_Inl split: sum.splits)

lemma compact_parts_Inl:
  "map_err (compact_part lib) kvs = Inl e \<Longrightarrow> \<exists>kv \<in> set kvs. json_dumps lib (snd kv) = Inl e"
  by (induction kvs) (auto dest: compact_part_Inl split: sum.splits)

lemma compact_args_Inl:
  assumes "compact_args lib (JStr s) max_len = Inl e"
  shows "\<exists>args v. json_loads lib s = Some args \<and> json_dumps lib v = Inl e \<and>
                (v = args \<or> (\<exists>kvs. args = JObj kvs \<and> v \<in> snd ` set kvs))"
proof -
  from assms obtain args where a: "json_loads lib s = Some args"
    by (auto simp: compact_args_def split: if_splits option.splits)
  with assms have ne: "s \<noteq> []"
    by (auto simp: compact_args_def split: if_splits)
  show ?thesis
  proof (cases args)
    case (JObj kvs)
    with assms a ne have "map_err (compact_part lib) kvs = Inl e"
      by (auto simp: compact_args_def bind_err_def split: sum.splits)
    from compact_parts_Inl [OF this] a JObj show ?thesis by auto
  qed (use assms a ne in \<open>auto simp: compact_args_def bind_err_def dest: trunc_Inl split: sum.splits\<close>)
qed

text \<open>
  Claim C6 says that compaction never raises on a string. The \<^verbatim>\<open>try\<close> covers
  \<^verbatim>\<open>json.loads\<close> only, and \<^verbatim>\<open>json.dumps\<close> is called outside it: the string of 993 opening
  and 993 closing brackets parses, \<^verbatim>\<open>json.dumps\<close> raises RecursionError on the value, and
  the exception escapes from the compaction.
\<close>

theorem compact_args_raises_counterexample:
  "json_loads sample_lib deep_args = Some (nested 992) \<and>
   json_dumps sample_lib (nested 992) = Inl RecursionError \<and>
   compact_args sample_lib (JStr deep_args) 200 = Inl RecursionError"
proof -
  obtain xs where xs: "nested 992 = JArr xs"
    using nested_list by blast
  have ne: "deep_args \<noteq> []"
    by (simp add: deep_args_head)
  have "trunc sample_lib (nested 992) = Inl RecursionError"
    by (simp add: trunc_def bind_err_def sample_lib_fields sample_dumps_deep)
  then have "compact_args sample_lib (JStr deep_args) 200 = Inl RecursionError"
    by (simp add: compact_args_def ne sample_lib_fields sample_loads_deep bind_err_def xs)
  then show ?thesis
    by (simp add: sample_lib_fields sample_loads_deep sample_dumps_deep)
qed

text \<open>
  Claim C6, amended. A string that fails to parse as JSON never makes the compaction
  raise: the result is the string with every newline replaced by a blank, kept whole if it
  fits the maximum length and otherwise cut to one character less with the ellipsis
  appended, so that for a positive maximum length the result has no newline and is never
  longer than that. From the compaction of any string an exception escapes only when the
  string parses and \<^verbatim>\<open>json.dumps\<close> raises that exception on the parsed value or on a
  value of the parsed mapping.
\<close>

theorem compact_args_on_strings:
  "(json_loads lib s = None \<longrightarrow>
      compact_args lib (JStr s) max_len =
        Inr (if s = [] then []
             else if int (length s) \<le> max_len then map (\<lambda>c. if c = 10 then 32 else c) s
             else py_prefix (map (\<lambda>c. if c = 10 then 32 else c) s) (max_len - 1) @ [8230])) \<and>
   (json_loads lib s = None \<longrightarrow> 0 < max_len \<longrightarrow>
      (\<exists>out. compact_args lib (JStr s) max_len = Inr out \<and>
             out = (if int (length s) \<le> max_len then map (\<lambda>c. if c = 10 then 32 else c) s
                    else take (nat (max_len - 1)) (map (\<lambda>c. if c = 10 then 32 else c) s) @ [8230]) \<and>
             int (length out) \<le> max_len \<and> 10 \<notin> set out)) \<and>
   (\<forall>e. compact_args lib (JStr s) max_len = Inl e \<longrightarrow>
      (\<exists>args v. json_loads lib s = Some args \<and> json_dumps lib v = Inl e \<and>
                (v = args \<or> (\<exists>kvs. args = JObj kvs \<and> v \<in> snd ` set kvs))))"
proof (intro conjI impI allI)
  assume n: "json_loads lib s = None"
  show "compact_args lib (JStr s) max_len =
        Inr (if s = [] then []
             else if int (length s) \<le> max_len then map (\<lambda>c. if c = 10 then 32 else c) s
             else py_prefix (map (\<lambda>c. if c = 10 then 32 else c) s) (max_len - 1) @ [8230])"
  proof (cases "s = []")
    case True
    then show ?thesis by (simp add: compact_args_def)
  next
    case False
    with n show ?thesis
      by (simp add: compact_args_unparsable cap_def replace_newlines_def ellipsis_def)
  qed
next
  assume n: "json_loads lib s = None" and m: "0 < max_len"
  let ?f = "\<lambda>c::nat. if c = 10 then 32 else c"
  let ?out = "if int (length s) \<le> max_len then map ?f s
              else take (nat (max_len - 1)) (map ?f s) @ [8230]"
  have r: "compact_args lib (JStr s) max_len = Inr ?out"
  proof (cases "s = []")
    case True
    with m show ?thesis by (simp add: compact_args_def)
  next
    case False
    with n m show ?thesis
      by (simp add: compact_args_unparsable cap_def replace_newlines_def ellipsis_def
          py_prefix_def)
  qed
  have l: "int (length ?out) \<le> max_len"
    using m by auto
  have "10 \<notin> set (map ?f s)" by auto
  then have c: "10 \<notin> set ?out"
    by (auto dest: in_set_takeD)
  from r l c
  show "\<exists>out. compact_args lib (JStr s) max_len = Inr out \<and>
          out = ?out \<and> int (length out) \<le> max_len \<and> 10 \<notin> set out"
    by blast
next
  fix e
  assume "compact_args lib (JStr s) max_len = Inl e"
  then show "\<exists>args v. json_loads lib s = Some args \<and> json_dumps lib v = Inl e \<and>
                (v = args \<or> (\<exists>kvs. args = JObj kvs \<and> v \<in> snd ` set kvs))"
    by (rule compact_args_Inl)
qed

theorem compact_args_on_strings_witness:
  "json_loads sample_lib (ustr ''{not'' @ [10] @ ustr ''json'') = None \<and> (0::int) < 200 \<and>
   compact_args sample_lib (JStr (ustr ''{not'' @ [10] @ ustr ''json'')) 200 =
     Inr (ustr ''{not json'') \<and>
   json_loads sample_lib (ustr ''{not json'') = None \<and>
   compact_args sample_lib (JStr (ustr ''{not json'')) 200 = Inr (ustr ''{not json'') \<and>
   json_loads sample_lib (replicate 201 120) = None \<and>
   compact_args sample_lib (JStr (replicate 201 120)) 200 = Inr (replicate 199 120 @ [8230]) \<and>
   compact_args sample_lib (JStr deep_args) 200 = Inl RecursionError \<and>
   json_loads sample_lib deep_args \<noteq> None \<and>
   json_dumps sample_lib (nested 992) = Inl RecursionError"
proof -
  have n1: "json_loads sample_lib (ustr ''{not'' @ [10] @ ustr ''json'') = None"
    and n2: "json_loads sample_lib (ustr ''{not json'') = None"
    and n3: "json_loads sample_lib (replicate 201 120) = None"
    by (simp_all only: sample_lib_fields sample_loads_newline sample_loads_not_json
        sample_loads_201)
  have 1: "compact_args sample_lib (JStr (ustr ''{not'' @ [10] @ ustr ''json'')) 200 =
     Inr (ustr ''{not json'')"
    using compact_args_on_strings [of sample_lib "ustr ''{not'' @ [10] @ ustr ''json''" 200] n1
    by (simp add: ustr_def)
  have 2: "compact_args sample_lib (JStr (ustr ''{not json'')) 200 = Inr (ustr ''{not json'')"
    using compact_args_on_strings [of sample_lib "ustr ''{not json''" 200] n2
    by (simp add: ustr_def)
  have 3: "compact_args sample_lib (JStr (replicate 201 120)) 200 =
     Inr (replicate 199 120 @ [8230])"
    using compact_args_on_strings [of sample_lib "replicate 201 120" 200] n3
    by (simp add: py_prefix_def)
  obtain xs where xs: "nested 992 = JArr xs"
    using nested_list by blast
  have ne: "deep_args \<noteq> []"
    by (simp add: deep_args_head)
  have 4: "compact_args sample_lib (JStr deep_args) 200 = Inl RecursionError"
    by (simp add: compact_args_def ne sample_lib_fields sample_loads_deep bind_err_def xs
        trunc_def sample_dumps_deep [unfolded xs])
  from compact_args_on_strings [of sample_lib deep_args 200] 4
  have 5: "json_loads sample_lib deep_args \<noteq> None" by auto
  from n1 n2 n3 1 2 3 4 5 show ?thesis
    by (simp add: sample_lib_fields sample_dumps_deep)
qed



lemma compact_args_mapping:
  "json_loads lib s = Some (JObj kvs) \<Longrightarrow> s \<noteq> [] \<Longrightarrow>
   map_err (compact_part lib) kvs = Inr parts \<Longrightarrow>
   compact_args lib (JStr s) max_len = Inr (cap (join (ustr '', '') parts) max_len)"
  by (simp add: compact_args_def bind_err_def)








section \<open>Properties of the record locator\<close>

lemma find_match_none:
  "list_all (\<lambda>entry. \<not> record_matches entry task_id trial) entries \<Longrightarrow>
   find_match entries task_id trial = None"
  by (induction entries) simp_all

lemma find_match_first:
  "list_all (\<lambda>entry. \<not> record_matches entry task_id trial) pre \<Longrightarrow>
   record_matches m task_id trial \<Longrightarrow>
   find_match (pre @ m # post) task_id trial = Some m"
  by (induction pre) simp_all

text \<open>
  Claim C7. When no entry of the record collection is a mapping whose \<^verbatim>\<open>task_id\<close> and
  \<^verbatim>\<open>trial\<close> both equal the targets, the run prints exactly one line, the error line that
  names the targets, and returns: no header, no instruction, no turn.
\<close>

theorem no_record_single_line:
  assumes "\<forall>entry \<in> set entries. \<not> record_matches entry task_id trial"
  shows "print_conversation lib file_path (Loaded (JArr entries)) task_id trial width color =
         Returns [color_text (ustr ''[error] No record found for task_id='' @ str_of_int task_id @
                              ustr '', trial='' @ str_of_int trial @ ustr ''.'') Error color]"
proof -
  from assms have "list_all (\<lambda>entry. \<not> record_matches entry task_id trial) entries"
    by (simp add: list_all_iff)
  then have "find_match entries task_id trial = None"
    by (rule find_match_none)
  then show ?thesis
    by (simp add: print_conversation_def no_record_line_def)
qed

theorem no_record_single_line_witness:
  "list_all (\<lambda>entry. \<not> record_matches entry 1 1) sample_records \<and>
   print_conversation sample_lib (ustr ''results.json'') (Loaded (JArr sample_records)) 1 1 100 False =
     Returns [ustr ''[error] No record found for task_id=1, trial=1.'']"
proof -
  have h: "\<forall>entry \<in> set sample_records. \<not> record_matches entry 1 1"
    by (simp add: sample_records_def sample_record_def record_matches_def dict_get_def)
  with no_record_single_line [OF h, of sample_lib "ustr ''results.json''" 100 False]
  show ?thesis by (simp add: color_text_def ustr_def str_of_int_1 [unfolded ustr_def] list_all_iff)
qed

text \<open>
  Claim C8. The locator selects the first matching record in collection order: whatever
  precedes it (entries that are not mappings, records with other identifiers) is skipped
  without error, whatever follows it (further records with the same identifiers) is not
  looked at, and the run is the rendering of that record.
\<close>

theorem first_match_selected:
  assumes "\<forall>entry \<in> set pre. \<not> record_matches entry task_id trial"
    and "record_matches m task_id trial"
  shows "find_match (pre @ m # post) task_id trial = Some m \<and>
         print_conversation lib file_path (Loaded (JArr (pre @ m # post))) task_id trial width color =
           render_record lib m task_id trial width color"
proof -
  from assms(1) have "list_all (\<lambda>entry. \<not> record_matches entry task_id trial) pre"
    by (simp add: list_all_iff)
  then have "find_match (pre @ m # post) task_id trial = Some m"
    using assms(2) by (rule find_match_first)
  then show ?thesis by (simp add: print_conversation_def)
qed

lemma sample_render_hi:
  "render_record sample_lib (sample_record (ustr ''hi'')) 1 0 100 False =
     Returns [ustr ''Conversation '' @ em_dash @ ustr '' task_id=1, trial=0'',
              replicate 33 rule_char, ustr ''[user] '', ustr ''  hi'']"
  by (simp add: sample_record_def run_defs str_of_int_0 str_of_int_1 ustr_def replicate_numeral)

theorem first_match_selected_witness:
  "list_all (\<lambda>entry. \<not> record_matches entry 1 0)
     [JStr (ustr ''note''), JObj [(ustr ''task_id'', JInt 2), (ustr ''trial'', JInt 1)]] \<and>
   record_matches (sample_record (ustr ''hi'')) 1 0 \<and>
   record_matches (sample_record (ustr ''bye'')) 1 0 \<and>
   find_match sample_records 1 0 = Some (sample_record (ustr ''hi'')) \<and>
   print_conversation sample_lib (ustr ''results.json'') (Loaded (JArr sample_records)) 1 0 100 False =
     Returns [ustr ''Conversation '' @ em_dash @ ustr '' task_id=1, trial=0'',
              replicate 33 rule_char, ustr ''[user] '', ustr ''  hi'']"
proof -
  have h: "\<forall>entry \<in> set [JStr (ustr ''note''),
             JObj [(ustr ''task_id'', JInt 2), (ustr ''trial'', JInt 1)]].
           \<not> record_matches entry 1 0"
    by (simp add: record_matches_def dict_get_def)
  have m: "record_matches (sample_record said) 1 0" for said
    by (simp add: sample_record_def record_matches_def dict_get_def)
  from first_match_selected [OF h m, of "ustr ''hi''" "[sample_record (ustr ''bye'')]" sample_lib
         "ustr ''results.json''" 100 False] h m
  show ?thesis by (simp add: sample_records_def sample_render_hi list_all_iff)
qed

section \<open>Properties of the rendering of one turn\<close>

lemma dict_get_other:
  "k' \<noteq> k \<Longrightarrow> dict_get ((k', v) # kvs) k d = dict_get kvs k d"
  by (simp add: dict_get_def)

lemma assistant_msg_role:
  "assistant_msg lib (JObj ((ustr ''role'', r) # kvs)) raw = assistant_msg lib (JObj kvs) raw"
  by (simp add: assistant_msg_def dict_get_other)

lemma turn_parts_no_role:
  assumes "map_of kvs (ustr ''role'') = None"
  shows "turn_parts lib id2call color (JObj kvs) =
         bind_err (assistant_msg lib (JObj kvs) (dict_get kvs (ustr ''content'') JNull))
           (\<lambda>msg. Inr (color_text (ustr ''[assistant]'') Assistant color, msg))"
  using assms by (simp add: turn_parts_def bind_err_def dict_get_def)

lemma turn_parts_assistant:
  "turn_parts lib id2call color (JObj ((ustr ''role'', JStr (ustr ''assistant'')) # kvs)) =
         bind_err (assistant_msg lib (JObj kvs) (dict_get kvs (ustr ''content'') JNull))
           (\<lambda>msg. Inr (color_text (ustr ''[assistant]'') Assistant color, msg))"
  by (simp add: turn_parts_def assistant_msg_role bind_err_def dict_get_def)

text \<open>
  Claim C10. A turn whose mapping has no \<^verbatim>\<open>role\<close> key is printed as an assistant turn: the
  run of the printing loop on it is the run on the same mapping with the role
  \<^verbatim>\<open>assistant\<close> written out, its label is \<^verbatim>\<open>[assistant]\<close>, and its message is the assistant
  message (the content, or the summary of the tool calls when the content is null).
\<close>

theorem missing_role_is_assistant:
  assumes "map_of kvs (ustr ''role'') = None"
  shows "print_turn lib id2call width color (JObj kvs) =
           print_turn lib id2call width color (JObj ((ustr ''role'', JStr (ustr ''assistant'')) # kvs)) \<and>
         (\<forall>out. print_turn lib id2call width color (JObj kvs) = Returns out \<longrightarrow>
            out \<noteq> [] \<and> hd out = color_text (ustr ''[assistant]'') Assistant color @ ustr '' '') \<and>
         turn_parts lib id2call color (JObj kvs) =
           bind_err (assistant_msg lib (JObj kvs) (dict_get kvs (ustr ''content'') JNull))
             (\<lambda>msg. Inr (color_text (ustr ''[assistant]'') Assistant color, msg))"
proof -
  note p = turn_parts_no_role [OF assms, of lib id2call color]
  have same: "turn_parts lib id2call color (JObj kvs) =
      turn_parts lib id2call color (JObj ((ustr ''role'', JStr (ustr ''assistant'')) # kvs))"
    by (simp only: p turn_parts_assistant)
  have 1: "print_turn lib id2call width color (JObj kvs) =
           print_turn lib id2call width color (JObj ((ustr ''role'', JStr (ustr ''assistant'')) # kvs))"
    by (simp only: print_turn_def same)
  have 2: "out \<noteq> [] \<and> hd out = color_text (ustr ''[assistant]'') Assistant color @ ustr '' ''"
    if "print_turn lib id2call width color (JObj kvs) = Returns out" for out
    using that unfolding print_turn_def p
    by (auto simp: bind_err_def split: sum.splits json.splits)
  from 1 2 p show ?thesis by blast
qed


lemma sample_compact_x1:
  \<open>compact_args sample_lib (JStr (ustr ''{"x":1}'')) 200 = Inr (ustr ''x=1'')\<close>
  by (simp add: compact_args_def sample_lib_fields sample_loads_x1 compact_part_def trunc_def
      bind_err_def sample_dumps_int str_of_int_1 cap_def) (simp add: ustr_def)

lemma sample_summary:
  "call_summary sample_lib lookup_call = Inr (ustr ''lookup(x=1)'')"
  by (simp add: call_summary_def lookup_call_def call_function_def py_or_def bind_err_def
      dict_get_def sample_compact_x1) (simp add: ustr_def)

theorem missing_role_is_assistant_witness:
  "map_of [(ustr ''content'', JNull), (ustr ''tool_calls'', JArr [lookup_call])] (ustr ''role'') = None \<and>
   print_turn sample_lib Map.empty 100 False
     (JObj [(ustr ''content'', JNull), (ustr ''tool_calls'', JArr [lookup_call])]) =
   Returns [ustr ''[assistant] '', ustr ''  '' @ arrow @ ustr '' tool call(s): lookup(x=1)'']"
proof -
  have h: "map_of [(ustr ''content'', JNull), (ustr ''tool_calls'', JArr [lookup_call])]
             (ustr ''role'') = None"
    by simp
  have "print_turn sample_lib Map.empty 100 False
     (JObj [(ustr ''role'', JStr (ustr ''assistant'')), (ustr ''content'', JNull),
            (ustr ''tool_calls'', JArr [lookup_call])]) =
   Returns [ustr ''[assistant] '', ustr ''  '' @ arrow @ ustr '' tool call(s): lookup(x=1)'']"
    by (simp add: print_turn_def turn_parts_def assistant_msg_def bind_err_def dict_get_def
        py_or_def sample_summary)
       (simp add: run_defs ustr_def)
  with missing_role_is_assistant [OF h, of sample_lib Map.empty 100 False] h
  show ?thesis by simp
qed

lemma strip_Nil_iff: "strip s = [] \<longleftrightarrow> (\<forall>c \<in> set s. is_space c)"
proof
  assume "strip s = []"
  then have a: "\<forall>c \<in> set (dropWhile is_space s). is_space c"
    by (simp add: strip_def dropWhile_eq_Nil_conv)
  have "dropWhile is_space s = []"
  proof (rule ccontr)
    assume n: "dropWhile is_space s \<noteq> []"
    then have "\<not> is_space (hd (dropWhile is_space s))" by (rule hd_dropWhile)
    moreover from n have "hd (dropWhile is_space s) \<in> set (dropWhile is_space s)" by simp
    ultimately show False using a by blast
  qed
  then show "\<forall>c \<in> set s. is_space c"
    by (simp add: dropWhile_eq_Nil_conv)
next
  assume "\<forall>c \<in> set s. is_space c"
  then show "strip s = []"
    by (auto simp: strip_def dropWhile_eq_Nil_conv dest: set_dropWhileD)
qed

lemma concat_splitlines_from: "concat (splitlines_from True cur s) = cur @ s"
  by (induction True cur s rule: splitlines_from.induct) simp_all

lemma set_indent: "set text \<subseteq> set (indent text p)"
proof -
  have incl: "set (concat ls) \<subseteq>
      set (concat (map (\<lambda>line. if strip line \<noteq> [] then p @ line else line) ls))"
    for ls :: "ustring list"
    by (induction ls) auto
  from incl [of "splitlines text True"] show ?thesis
    by (simp add: indent_def splitlines_def concat_splitlines_from)
qed

lemma strip_indent: "strip text \<noteq> [] \<Longrightarrow> strip (indent text p) \<noteq> []"
  using set_indent [of "text" p] by (auto simp: strip_Nil_iff)

lemma indent_placeholder:
  "indent (color_text (ustr ''(no content)'') Dim color) (ustr ''  '') =
   ustr ''  '' @ color_text (ustr ''(no content)'') Dim color"
  by (cases color) (simp_all add: indent_def splitlines_def color_text_def strip_def is_space_def
      is_linebreak_def ustr_def)

lemma placeholder_visible:
  "strip (ustr ''  '' @ color_text (ustr ''(no content)'') Dim color) \<noteq> []"
  by (cases color) (simp_all add: color_text_def strip_def is_space_def ustr_def)

lemma body_text_cases:
  "body_text w color =
     (if strip w = [] then ustr ''  '' @ color_text (ustr ''(no content)'') Dim color
      else indent w (ustr ''  ''))"
  by (simp add: body_text_def indent_placeholder)

lemma body_text_visible: "strip (body_text w color) \<noteq> []"
  by (simp add: body_text_cases placeholder_visible strip_indent)

text \<open>
  Claim C9. Whenever the printing loop prints a turn, it prints the label and one body,
  and the body is never blank: when the wrapped message is empty or white space only, the
  body is the placeholder \<^verbatim>\<open>(no content)\<close> behind the two-blank margin, and otherwise it is
  the wrapped message indented by two blanks.
\<close>

theorem body_never_blank:
  assumes "print_turn lib id2call width color turn = Returns out"
  shows "\<exists>role_tag msg w.
           turn_parts lib id2call color turn = Inr (role_tag, msg) \<and>
           wrap lib msg width = Inr (JStr w) \<and>
           out = [role_tag @ ustr '' '',
                  if strip w = [] then ustr ''  '' @ color_text (ustr ''(no content)'') Dim color
                  else indent w (ustr ''  '')] \<and>
           strip (out ! 1) \<noteq> []"
proof -
  from assms obtain tm where tm: "turn_parts lib id2call color turn = Inr tm"
    by (auto simp: print_turn_def split: sum.splits)
  with assms obtain mw where mw: "wrap lib (snd tm) width = Inr mw"
    by (auto simp: print_turn_def split: sum.splits)
  with assms tm obtain w where w: "mw = JStr w"
    by (auto simp: print_turn_def split: json.splits)
  from assms tm mw w have out: "out = [fst tm @ ustr '' '', body_text w color]"
    by (simp add: print_turn_def)
  have "strip (out ! 1) \<noteq> []"
    by (simp add: out body_text_visible)
  with tm mw w out show ?thesis
    by (intro exI [of _ "fst tm"] exI [of _ "snd tm"] exI [of _ w])
       (simp add: body_text_cases)
qed

theorem body_never_blank_witness:
  "print_turn sample_lib Map.empty 100 False
     (JObj [(ustr ''role'', JStr (ustr ''user'')), (ustr ''content'', JStr [])]) =
     Returns [ustr ''[user] '', ustr ''  (no content)''] \<and>
   strip (ustr ''  (no content)'') \<noteq> []"
proof -
  have e: "print_turn sample_lib Map.empty 100 False
     (JObj [(ustr ''role'', JStr (ustr ''user'')), (ustr ''content'', JStr [])]) =
     Returns [ustr ''[user] '', ustr ''  (no content)'']"
    by (simp add: run_defs ustr_def)
  from body_never_blank [OF e] e show ?thesis by auto
qed

lemma sample_index_call:
  "index_call sample_lib Map.empty lookup_call = Inr sample_index"
  by (simp add: index_call_def lookup_call_def call_function_def py_or_def bind_err_def
      dict_get_def sample_compact_x1 sample_index_def)

lemma sample_build_index: "build_index sample_lib sample_traj = Inr sample_index"
  by (simp add: build_index_def sample_traj_def index_turn_def bind_err_def dict_get_def
      py_or_def sample_index_call)

lemma sample_start: "start_idx sample_traj = 0"
  by (simp add: start_idx_def sample_traj_def is_user_def dict_get_def)

lemma sample_print_user:
  "print_turn sample_lib id2call 100 False
     (JObj [(ustr ''role'', JStr (ustr ''user'')), (ustr ''content'', JStr (ustr ''hi''))]) =
   Returns [ustr ''[user] '', ustr ''  hi'']"
  by (simp add: run_defs ustr_def)

lemma sample_print_assistant:
  "print_turn sample_lib id2call 100 False
     (JObj [(ustr ''role'', JStr (ustr ''assistant'')), (ustr ''content'', JNull),
            (ustr ''tool_calls'', JArr [lookup_call])]) =
   Returns [ustr ''[assistant] '', ustr ''  '' @ arrow @ ustr '' tool call(s): lookup(x=1)'']"
  by (simp add: print_turn_def turn_parts_def assistant_msg_def bind_err_def dict_get_def
        py_or_def sample_summary)
     (simp add: run_defs ustr_def)

lemma sample_print_tool:
  "print_turn sample_lib sample_index 100 False
     (JObj [(ustr ''role'', JStr (ustr ''tool'')), (ustr ''name'', JStr (ustr ''search'')),
            (ustr ''tool_call_id'', JStr (ustr ''c1'')), (ustr ''content'', JStr (ustr ''result''))]) =
   Returns [ustr ''[tool:search(x=1)] '', ustr ''  result'']"
  by (simp add: run_defs sample_index_def ustr_def)

text \<open>
  Claim C1 says that the label of a tool turn names the function found in the index under
  the turn's \<^verbatim>\<open>tool_call_id\<close> and that the turn's own \<^verbatim>\<open>name\<close> is used only without a match.
  The source evaluates \<^verbatim>\<open>tool_name or fname or ""\<close>: the turn's own name comes first. In the
  sample conversation the index maps \<^verbatim>\<open>c1\<close> to \<^verbatim>\<open>lookup\<close>, the tool turn is named
  \<^verbatim>\<open>search\<close>, and the label printed is \<^verbatim>\<open>[tool:search(x=1)]\<close>, not \<^verbatim>\<open>[tool:lookup(x=1)]\<close>.
\<close>

theorem tool_label_counterexample:
  "(case build_index sample_lib sample_traj of
      Inr id2call \<Rightarrow> id2call (KStr (ustr ''c1''))
    | Inl e \<Rightarrow> None) = Some (JStr (ustr ''lookup''), ustr ''x=1'') \<and>
   print_traj sample_lib (JArr sample_traj) 100 False =
     Returns [ustr ''[user] '', ustr ''  hi'',
              ustr ''[assistant] '', ustr ''  '' @ arrow @ ustr '' tool call(s): lookup(x=1)'',
              ustr ''[tool:search(x=1)] '', ustr ''  result''] \<and>
   ustr ''[tool:search(x=1)] '' \<noteq> ustr ''[tool:lookup(x=1)] ''"
proof -
  have "print_turns sample_lib sample_index 100 False sample_traj =
     Returns [ustr ''[user] '', ustr ''  hi'',
              ustr ''[assistant] '', ustr ''  '' @ arrow @ ustr '' tool call(s): lookup(x=1)'',
              ustr ''[tool:search(x=1)] '', ustr ''  result'']"
    by (simp add: sample_traj_def sample_print_user sample_print_assistant sample_print_tool)
  then show ?thesis
    by (simp add: print_traj_def sample_build_index sample_start) (simp add: sample_index_def)
qed

text \<open>
  Claim C1, amended. For a turn with role \<^verbatim>\<open>tool\<close> and a hashable \<^verbatim>\<open>tool_call_id\<close>: the name
  in the label is the turn's own \<^verbatim>\<open>name\<close> when it has one, and only otherwise the function
  name that the index holds for the \<^verbatim>\<open>tool_call_id\<close>; the arguments in the label are those the
  index holds for the \<^verbatim>\<open>tool_call_id\<close> (none without a match). Without any name the label is
  \<^verbatim>\<open>[tool]\<close>; with a name it is \<^verbatim>\<open>[tool:NAME(ARGS)]\<close> when the arguments are not empty and
  \<^verbatim>\<open>[tool:NAME]\<close> otherwise.
\<close>

theorem tool_label:
  assumes "dict_get kvs (ustr ''role'') (JStr (ustr ''assistant'')) = JStr (ustr ''tool'')"
    and "key_of (dict_get kvs (ustr ''tool_call_id'') JNull) = Some k"
  shows "turn_parts lib id2call color (JObj kvs) =
     Inr (color_text
            (let tool_name = dict_get kvs (ustr ''name'') JNull;
                 hit = (if truthy (dict_get kvs (ustr ''tool_call_id'') JNull) then id2call k
                        else None);
                 shown = (if truthy tool_name then tool_name
                          else case hit of Some fc \<Rightarrow> fst fc | None \<Rightarrow> JStr []);
                 args = (case hit of Some fc \<Rightarrow> snd fc | None \<Rightarrow> [])
             in if \<not> truthy shown then ustr ''[tool]''
                else if args = [] then ustr ''[tool:'' @ py_format lib shown @ ustr '']''
                else ustr ''[tool:'' @ py_format lib shown @ ustr ''('' @ args @ ustr '')]'')
            Tool color,
          py_or (dict_get kvs (ustr ''content'') JNull) (JStr []))"
  using assms
  by (auto simp: turn_parts_def tool_tag_def bind_err_def py_or_def Let_def split: option.splits)

theorem tool_label_witness:
  "dict_get [(ustr ''role'', JStr (ustr ''tool'')), (ustr ''name'', JStr (ustr ''search'')),
             (ustr ''tool_call_id'', JStr (ustr ''c1'')), (ustr ''content'', JStr (ustr ''result''))]
     (ustr ''role'') (JStr (ustr ''assistant'')) = JStr (ustr ''tool'') \<and>
   key_of (JStr (ustr ''c1'')) = Some (KStr (ustr ''c1'')) \<and>
   turn_parts sample_lib sample_index False
     (JObj [(ustr ''role'', JStr (ustr ''tool'')), (ustr ''name'', JStr (ustr ''search'')),
            (ustr ''tool_call_id'', JStr (ustr ''c1'')), (ustr ''content'', JStr (ustr ''result''))]) =
     Inr (ustr ''[tool:search(x=1)]'', JStr (ustr ''result'')) \<and>
   turn_parts sample_lib sample_index False
     (JObj [(ustr ''role'', JStr (ustr ''tool'')),
            (ustr ''tool_call_id'', JStr (ustr ''c1'')), (ustr ''content'', JStr (ustr ''result''))]) =
     Inr (ustr ''[tool:lookup(x=1)]'', JStr (ustr ''result''))"
proof -
  have r: "dict_get ((ustr ''role'', JStr (ustr ''tool'')) # rest) (ustr ''role'')
             (JStr (ustr ''assistant'')) = JStr (ustr ''tool'')" for rest
    by (simp add: dict_get_def)
  have 1: "turn_parts sample_lib sample_index False
     (JObj [(ustr ''role'', JStr (ustr ''tool'')), (ustr ''name'', JStr (ustr ''search'')),
            (ustr ''tool_call_id'', JStr (ustr ''c1'')), (ustr ''content'', JStr (ustr ''result''))]) =
     Inr (ustr ''[tool:search(x=1)]'', JStr (ustr ''result''))"
    using tool_label [OF r, of _ "KStr (ustr ''c1'')" sample_lib sample_index False]
    by (simp add: dict_get_def sample_index_def color_text_def py_or_def) (simp add: ustr_def)
  have 2: "turn_parts sample_lib sample_index False
     (JObj [(ustr ''role'', JStr (ustr ''tool'')),
            (ustr ''tool_call_id'', JStr (ustr ''c1'')), (ustr ''content'', JStr (ustr ''result''))]) =
     Inr (ustr ''[tool:lookup(x=1)]'', JStr (ustr ''result''))"
    using tool_label [OF r, of _ "KStr (ustr ''c1'')" sample_lib sample_index False]
    by (simp add: dict_get_def sample_index_def color_text_def py_or_def) (simp add: ustr_def)
  from r 1 2 show ?thesis by simp
qed

section \<open>Properties of the walk over the turns\<close>

lemma str_or_none_cases: "str_or_none v \<longleftrightarrow> v = JNull \<or> (\<exists>s. v = JStr s)"
  by (cases v) (simp_all add: str_or_none_def)

lemma str_or_none_key: "str_or_none v \<Longrightarrow> \<exists>k. key_of v = Some k"
  by (auto simp: str_or_none_cases)

lemma call_function_tool_call:
  assumes "is_tool_call tc"
  shows "\<exists>f. call_function tc = Inr (JObj f)"
proof -
  from assms obtain kvs where tc: "tc = JObj kvs"
    by (cases tc) (simp_all add: is_tool_call_def)
  from assms tc show ?thesis
    by (cases "dict_get kvs (ustr ''function'') JNull")
       (simp_all add: is_tool_call_def call_function_def py_or_def bind_err_def dict_get_def)
qed

lemma compacts_call:
  assumes "compacts lib tc" and "call_function tc = Inr (JObj f)"
  shows "\<exists>out. compact_args lib (dict_get f (ustr ''arguments'') (JStr [])) 200 = Inr out"
  using assms by (auto simp: compacts_def call_arguments_def split: sum.splits)

lemma index_call_total:
  assumes "is_tool_call tc" and "compacts lib tc"
  shows "\<exists>m'. index_call lib m tc = Inr m'"
proof -
  from call_function_tool_call [OF assms(1)] obtain f
    where f: "call_function tc = Inr (JObj f)"
    by blast
  from compacts_call [OF assms(2) f] obtain out
    where out: "compact_args lib (dict_get f (ustr ''arguments'') (JStr [])) 200 = Inr out"
    by blast
  from assms(1) obtain kvs where tc: "tc = JObj kvs"
    and i: "str_or_none (dict_get kvs (ustr ''id'') JNull)"
    and t: "str_or_none (dict_get kvs (ustr ''tool_call_id'') JNull)"
    by (cases tc) (simp_all add: is_tool_call_def)
  from str_or_none_key [OF i] str_or_none_key [OF t] f out show ?thesis
    by (auto simp: index_call_def bind_err_def tc)
qed

lemma index_calls_total:
  "list_all is_tool_call tcs \<Longrightarrow> list_all (compacts lib) tcs \<Longrightarrow>
   \<exists>m'. fold_err (index_call lib) m tcs = Inr m'"
proof (induction tcs arbitrary: m)
  case Nil
  then show ?case by simp
next
  case (Cons tc tcs)
  then obtain m1 where "index_call lib m tc = Inr m1"
    using index_call_total [of tc lib m] by auto
  with Cons show ?case by simp
qed

lemma turn_tool_calls:
  assumes "is_turn (JObj kvs)" and "turn_compacts lib (JObj kvs)"
  shows "\<exists>tcs. py_iter (py_or (dict_get kvs (ustr ''tool_calls'') JNull) (JArr [])) = Inr tcs \<and>
               list_all is_tool_call tcs \<and> list_all (compacts lib) tcs"
  using assms
  by (cases "dict_get kvs (ustr ''tool_calls'') JNull")
     (auto simp: is_turn_def turn_compacts_def py_or_def)

lemma index_turn_total:
  assumes "is_turn turn" and "turn_compacts lib turn"
  shows "\<exists>m'. index_turn lib m turn = Inr m'"
proof -
  from assms(1) obtain kvs where turn: "turn = JObj kvs"
    by (cases turn) (simp_all add: is_turn_def)
  from turn_tool_calls [OF assms [unfolded turn]] obtain tcs
    where "py_iter (py_or (dict_get kvs (ustr ''tool_calls'') JNull) (JArr [])) = Inr tcs"
      and "list_all is_tool_call tcs" and "list_all (compacts lib) tcs"
    by blast
  with index_calls_total [of tcs lib m] show ?thesis
    by (auto simp: index_turn_def bind_err_def turn)
qed

lemma build_index_total_from:
  "list_all is_turn traj \<Longrightarrow> list_all (turn_compacts lib) traj \<Longrightarrow>
   \<exists>m'. fold_err (index_turn lib) m traj = Inr m'"
proof (induction traj arbitrary: m)
  case Nil
  then show ?case by simp
next
  case (Cons turn traj)
  then obtain m1 where "index_turn lib m turn = Inr m1"
    using index_turn_total [of turn lib m] by auto
  with Cons show ?case by simp
qed

lemma call_summary_total:
  assumes "is_tool_call tc" and "compacts lib tc"
  shows "\<exists>part. call_summary lib tc = Inr part"
proof -
  from call_function_tool_call [OF assms(1)] obtain f
    where f: "call_function tc = Inr (JObj f)"
    by blast
  from compacts_call [OF assms(2) f] obtain out
    where "compact_args lib (dict_get f (ustr ''arguments'') (JStr [])) 200 = Inr out"
    by blast
  with f show ?thesis
    by (simp add: call_summary_def bind_err_def)
qed

lemma call_summaries_total:
  "list_all is_tool_call tcs \<Longrightarrow> list_all (compacts lib) tcs \<Longrightarrow>
   \<exists>parts. map_err (call_summary lib) tcs = Inr parts"
proof (induction tcs)
  case Nil
  then show ?case by simp
next
  case (Cons tc tcs)
  then obtain part parts where "call_summary lib tc = Inr part"
    and "map_err (call_summary lib) tcs = Inr parts"
    using call_summary_total [of tc lib] by auto
  then show ?case by simp
qed

lemma assistant_msg_total:
  assumes "is_turn (JObj kvs)" and "turn_compacts lib (JObj kvs)"
  shows "\<exists>s. assistant_msg lib (JObj kvs) (dict_get kvs (ustr ''content'') JNull) = Inr (JStr s)"
proof (cases "dict_get kvs (ustr ''content'') JNull = JNull")
  case True
  from turn_tool_calls [OF assms] obtain tcs
    where it: "py_iter (py_or (dict_get kvs (ustr ''tool_calls'') JNull) (JArr [])) = Inr tcs"
      and all: "list_all is_tool_call tcs" and cs: "list_all (compacts lib) tcs"
    by blast
  from call_summaries_total [OF all cs] obtain parts
    where "map_err (call_summary lib) tcs = Inr parts"
    by blast
  with True it show ?thesis
    by (simp add: assistant_msg_def bind_err_def Let_def)
next
  case False
  moreover from assms have "str_or_none (dict_get kvs (ustr ''content'') JNull)"
    by (simp add: is_turn_def)
  ultimately show ?thesis
    by (auto simp: assistant_msg_def str_or_none_cases)
qed

lemma py_or_content:
  "str_or_none v \<Longrightarrow> \<exists>s. py_or v (JStr []) = JStr s"
  by (auto simp: str_or_none_cases py_or_def)

lemma tool_tag_total:
  "str_or_none tool_call_id \<Longrightarrow>
   \<exists>tag. tool_tag lib id2call color tool_name tool_call_id = Inr tag"
  by (auto simp: tool_tag_def bind_err_def Let_def dest: str_or_none_key)

lemma turn_parts_total:
  assumes "is_turn turn" and "turn_compacts lib turn"
  shows "\<exists>role_tag s. turn_parts lib id2call color turn = Inr (role_tag, JStr s)"
proof -
  from assms(1) obtain kvs where turn: "turn = JObj kvs"
    and c: "str_or_none (dict_get kvs (ustr ''content'') JNull)"
    and t: "str_or_none (dict_get kvs (ustr ''tool_call_id'') JNull)"
    by (cases turn) (simp_all add: is_turn_def)
  from assistant_msg_total [OF assms [unfolded turn]] obtain s1
    where a: "assistant_msg lib (JObj kvs) (dict_get kvs (ustr ''content'') JNull) = Inr (JStr s1)"
    by blast
  from py_or_content [OF c] obtain s2
    where p: "py_or (dict_get kvs (ustr ''content'') JNull) (JStr []) = JStr s2"
    by blast
  from tool_tag_total [OF t, of lib id2call color "dict_get kvs (ustr ''name'') JNull"] obtain tag
    where g: "tool_tag lib id2call color (dict_get kvs (ustr ''name'') JNull)
                (dict_get kvs (ustr ''tool_call_id'') JNull) = Inr tag"
    by blast
  show ?thesis
    by (simp add: turn_parts_def turn bind_err_def a p g)
qed

lemma wrap_string: "\<exists>w. wrap lib (JStr s) width = Inr (JStr w)"
  by (simp add: wrap_def)

lemma print_turn_total:
  assumes "is_turn turn" and "turn_compacts lib turn"
  shows "\<exists>label body. print_turn lib id2call width color turn = Returns [label, body]"
proof -
  from turn_parts_total [OF assms, of id2call color] obtain role_tag s
    where p: "turn_parts lib id2call color turn = Inr (role_tag, JStr s)"
    by blast
  from wrap_string [of lib s width] obtain w where "wrap lib (JStr s) width = Inr (JStr w)"
    by blast
  with p show ?thesis by (simp add: print_turn_def)
qed

lemma print_turns_total:
  "list_all is_turn turns \<Longrightarrow> list_all (turn_compacts lib) turns \<Longrightarrow>
   print_turns lib id2call width color turns =
     Returns (concat (map (\<lambda>turn. printed (print_turn lib id2call width color turn)) turns))"
proof (induction turns)
  case Nil
  then show ?case by simp
next
  case (Cons turn turns)
  then obtain label body
    where "print_turn lib id2call width color turn = Returns [label, body]"
    using print_turn_total [of turn lib id2call width color] by auto
  with Cons show ?case by simp
qed

lemma find_start_eq:
  "find_start i traj =
     (if list_ex is_user traj then i + length (takeWhile (\<lambda>turn. \<not> is_user turn) traj) else 0)"
  by (induction traj arbitrary: i) simp_all

lemma drop_start_idx:
  "drop (start_idx traj) traj =
     (if list_ex is_user traj then dropWhile (\<lambda>turn. \<not> is_user turn) traj else traj)"
  by (simp add: start_idx_def find_start_eq dropWhile_eq_drop)

lemma sample_print_system:
  "print_turn sample_lib id2call 100 False system_turn =
   Returns [ustr ''[system] '', ustr ''  be brief'']"
  by (simp add: system_turn_def run_defs ustr_def)

lemma sample_print_hello:
  "print_turn sample_lib id2call 100 False
     (JObj [(ustr ''role'', JStr (ustr ''assistant'')), (ustr ''content'', JStr (ustr ''hello''))]) =
   Returns [ustr ''[assistant] '', ustr ''  hello'']"
  by (simp add: run_defs ustr_def)

text \<open>
  Claim C2 says that for every turn sequence the turn blocks start at the first user turn
  and that nothing before it is printed, so that a sequence without user turn would print
  no turn block. The source leaves \<^verbatim>\<open>start_idx\<close> at \<open>0\<close> when its search finds no user turn:
  the sample sequence of a system turn and an assistant turn has no turn from a first user
  turn onward, and both its turns are printed.
\<close>

theorem turns_rendered_counterexample:
  "\<not> list_ex is_user no_user_traj \<and>
   dropWhile (\<lambda>turn. \<not> is_user turn) no_user_traj = [] \<and>
   print_traj sample_lib (JArr no_user_traj) 100 False =
     Returns [ustr ''[system] '', ustr ''  be brief'', ustr ''[assistant] '', ustr ''  hello'']"
proof -
  have u: "\<not> list_ex is_user no_user_traj"
    by (simp add: no_user_traj_def system_turn_def is_user_def dict_get_def)
  have b: "build_index sample_lib no_user_traj = Inr Map.empty"
    by (simp add: build_index_def no_user_traj_def system_turn_def index_turn_def bind_err_def
        dict_get_def py_or_def)
  have s: "start_idx no_user_traj = 0"
    by (simp add: start_idx_def no_user_traj_def system_turn_def is_user_def dict_get_def)
  have "print_traj sample_lib (JArr no_user_traj) 100 False =
     Returns [ustr ''[system] '', ustr ''  be brief'', ustr ''[assistant] '', ustr ''  hello'']"
    by (simp add: print_traj_def b s) (simp add: no_user_traj_def sample_print_system sample_print_hello)
  with u show ?thesis by (simp add: list_ex_iff dropWhile_eq_Nil_conv)
qed

text \<open>
  Claim C2, amended. For every sequence of turns of the data model whose tool-call
  arguments compact without error, both passes complete. If the sequence has a turn with
  role \<^verbatim>\<open>user\<close>, the turn blocks are those of the turns from the first such turn onward, in
  order, and no earlier turn is printed; if it has none, the turn blocks are those of all
  turns. Every turn printed contributes exactly one label line and one body block.
\<close>

theorem turns_rendered_from_first_user:
  assumes "list_all is_turn traj" and "list_all (turn_compacts lib) traj"
  shows "\<exists>id2call.
           build_index lib traj = Inr id2call \<and>
           print_traj lib (JArr traj) width color =
             Returns (concat (map (\<lambda>turn. printed (print_turn lib id2call width color turn))
                        (if list_ex is_user traj
                         then dropWhile (\<lambda>turn. \<not> is_user turn) traj else traj))) \<and>
           (\<forall>turn \<in> set traj.
              \<exists>label body. print_turn lib id2call width color turn = Returns [label, body])"
proof -
  from build_index_total_from [OF assms, of Map.empty] obtain id2call
    where b: "build_index lib traj = Inr id2call"
    by (auto simp: build_index_def)
  from assms have "list_all is_turn (drop (start_idx traj) traj)"
    and "list_all (turn_compacts lib) (drop (start_idx traj) traj)"
    by (auto simp: list_all_iff dest: in_set_dropD)
  then have "print_turns lib id2call width color (drop (start_idx traj) traj) =
     Returns (concat (map (\<lambda>turn. printed (print_turn lib id2call width color turn))
                (drop (start_idx traj) traj)))"
    by (rule print_turns_total)
  with b have "print_traj lib (JArr traj) width color =
             Returns (concat (map (\<lambda>turn. printed (print_turn lib id2call width color turn))
                        (if list_ex is_user traj
                         then dropWhile (\<lambda>turn. \<not> is_user turn) traj else traj)))"
    by (simp add: print_traj_def drop_start_idx)
  moreover from assms
  have "\<forall>turn \<in> set traj.
          \<exists>label body. print_turn lib id2call width color turn = Returns [label, body]"
    by (auto simp: list_all_iff intro: print_turn_total)
  ultimately show ?thesis using b by blast
qed

theorem turns_rendered_from_first_user_witness:
  "list_all is_turn (system_turn # sample_traj) \<and>
   list_all (turn_compacts sample_lib) (system_turn # sample_traj) \<and>
   list_ex is_user (system_turn # sample_traj) \<and>
   dropWhile (\<lambda>turn. \<not> is_user turn) (system_turn # sample_traj) = sample_traj \<and>
   print_traj sample_lib (JArr (system_turn # sample_traj)) 100 False =
     Returns [ustr ''[user] '', ustr ''  hi'',
              ustr ''[assistant] '', ustr ''  '' @ arrow @ ustr '' tool call(s): lookup(x=1)'',
              ustr ''[tool:search(x=1)] '', ustr ''  result'']"
proof -
  have h: "list_all is_turn (system_turn # sample_traj)"
    by (simp add: system_turn_def sample_traj_def lookup_call_def is_turn_def is_tool_call_def
        dict_get_def str_or_none_def)
  have a: \<open>call_arguments lookup_call = JStr (ustr ''{"x":1}'')\<close>
    by (simp add: call_arguments_def lookup_call_def call_function_def py_or_def bind_err_def
        dict_get_def)
  have c: "list_all (turn_compacts sample_lib) (system_turn # sample_traj)"
    by (simp add: system_turn_def sample_traj_def turn_compacts_def dict_get_def compacts_def a
        sample_compact_x1)
  have u: "list_ex is_user (system_turn # sample_traj)"
    and d: "dropWhile (\<lambda>turn. \<not> is_user turn) (system_turn # sample_traj) = sample_traj"
    by (simp_all add: system_turn_def sample_traj_def is_user_def dict_get_def)
  have i: "index_turn sample_lib Map.empty system_turn = Inr Map.empty"
    by (simp add: system_turn_def index_turn_def bind_err_def dict_get_def)
  have b: "build_index sample_lib (system_turn # sample_traj) = Inr sample_index"
    using sample_build_index by (simp add: build_index_def i)
  have p: "concat (map (\<lambda>turn. printed (print_turn sample_lib sample_index 100 False turn)) sample_traj) =
     [ustr ''[user] '', ustr ''  hi'',
      ustr ''[assistant] '', ustr ''  '' @ arrow @ ustr '' tool call(s): lookup(x=1)'',
      ustr ''[tool:search(x=1)] '', ustr ''  result'']"
    by (simp add: sample_traj_def sample_print_user sample_print_assistant sample_print_tool)
  from turns_rendered_from_first_user [OF h c, of 100 False] h c u d b p
  show ?thesis by auto
qed

section \<open>Properties of the tool-call index\<close>

lemma py_get_Inr: "py_get v k d = Inr x \<Longrightarrow> \<exists>kvs. v = JObj kvs \<and> x = dict_get kvs k d"
  by (cases v) simp_all

lemma last_call_Nil [simp]: "last_call k [] = None"
  by (simp add: last_call_def)

lemma last_call_Cons:
  "last_call k (tc # rest) =
     (case last_call k rest of
        Some x \<Rightarrow> Some x
      | None \<Rightarrow> if carries k tc then Some tc else None)"
  by (simp add: last_call_def split: list.splits)

lemma last_call_append:
  "last_call k (xs @ ys) =
     (case last_call k ys of Some x \<Rightarrow> Some x | None \<Rightarrow> last_call k xs)"
  by (induction xs) (simp_all add: last_call_Cons split: option.splits)

lemma index_call_lookup:
  assumes "index_call lib m tc = Inr m'"
  shows "m' k = (if carries k tc then Some (call_pair lib tc) else m k)"
proof -
  from assms obtain func where func: "call_function tc = Inr func"
    by (auto simp: index_call_def bind_err_def split: sum.splits)
  from assms func obtain fname where "py_get func (ustr ''name'') (JStr []) = Inr fname"
    by (auto simp: index_call_def bind_err_def split: sum.splits)
  then obtain f where f: "func = JObj f"
    by (auto dest: py_get_Inr)
  from assms func f obtain comp
    where comp: "compact_args lib (dict_get f (ustr ''arguments'') (JStr [])) 200 = Inr comp"
    by (auto simp: index_call_def bind_err_def split: sum.splits)
  from assms func f comp obtain i where "py_get tc (ustr ''id'') JNull = Inr i"
    by (auto simp: index_call_def bind_err_def split: sum.splits)
  then obtain kvs where tc: "tc = JObj kvs"
    by (auto dest: py_get_Inr)
  have pair: "call_pair lib tc = (dict_get f (ustr ''name'') (JStr []), comp)"
    by (simp add: call_pair_def func f comp)
  have ident: "call_identifier tc =
      py_or (dict_get kvs (ustr ''id'') JNull) (dict_get kvs (ustr ''tool_call_id'') JNull)"
    by (simp add: call_identifier_def tc)
  from assms func f comp tc
  have "(if truthy (call_identifier tc) then
           (case key_of (call_identifier tc) of
              None \<Rightarrow> Inl TypeError
            | Some k' \<Rightarrow> Inr (m(k' \<mapsto> call_pair lib tc)))
         else Inr m) = Inr m'"
    unfolding ident pair
    by (simp add: index_call_def bind_err_def py_or_def split: if_splits)
  then show ?thesis
    by (auto simp: carries_def split: if_splits option.splits)
qed

lemma index_calls_lookup:
  "fold_err (index_call lib) m calls = Inr m' \<Longrightarrow>
   m' k = (case last_call k calls of Some tc \<Rightarrow> Some (call_pair lib tc) | None \<Rightarrow> m k)"
proof (induction calls arbitrary: m)
  case Nil
  then show ?case by simp
next
  case (Cons tc rest)
  from Cons.prems obtain m1 where m1: "index_call lib m tc = Inr m1"
    and rest: "fold_err (index_call lib) m1 rest = Inr m'"
    by (auto split: sum.splits)
  from Cons.IH [OF rest] index_call_lookup [OF m1, of k]
  show ?case by (simp add: last_call_Cons split: option.splits)
qed

lemma index_turn_lookup:
  assumes "index_turn lib m turn = Inr m'"
  shows "m' k = (case last_call k (turn_calls turn) of
                   Some tc \<Rightarrow> Some (call_pair lib tc)
                 | None \<Rightarrow> m k)"
proof -
  from assms obtain role where "py_get turn (ustr ''role'') JNull = Inr role"
    by (auto simp: index_turn_def bind_err_def split: sum.splits)
  then obtain kvs where turn: "turn = JObj kvs"
    by (auto dest: py_get_Inr)
  show ?thesis
  proof (cases "dict_get kvs (ustr ''role'') JNull = JStr (ustr ''assistant'')")
    case True
    with assms turn obtain calls
      where it: "py_iter (py_or (dict_get kvs (ustr ''tool_calls'') JNull) (JArr [])) = Inr calls"
        and fold: "fold_err (index_call lib) m calls = Inr m'"
      by (auto simp: index_turn_def bind_err_def split: sum.splits)
    from True it have "turn_calls turn = calls"
      by (simp add: turn_calls_def turn)
    with index_calls_lookup [OF fold, of k] show ?thesis by simp
  next
    case False
    with assms turn have "m' = m" and "turn_calls turn = []"
      by (auto simp: index_turn_def bind_err_def turn_calls_def)
    then show ?thesis by simp
  qed
qed

lemma index_turns_lookup:
  "fold_err (index_turn lib) m traj = Inr m' \<Longrightarrow>
   m' k = (case last_call k (document_calls traj) of
             Some tc \<Rightarrow> Some (call_pair lib tc)
           | None \<Rightarrow> m k)"
proof (induction traj arbitrary: m)
  case Nil
  then show ?case by (simp add: document_calls_def)
next
  case (Cons turn rest)
  from Cons.prems obtain m1 where m1: "index_turn lib m turn = Inr m1"
    and rest: "fold_err (index_turn lib) m1 rest = Inr m'"
    by (auto split: sum.splits)
  have "document_calls (turn # rest) = turn_calls turn @ document_calls rest"
    by (simp add: document_calls_def)
  with Cons.IH [OF rest] index_turn_lookup [OF m1, of k]
  show ?case by (simp add: last_call_append split: option.splits)
qed

lemma last_call_Some_iff:
  "(\<exists>tc. last_call k calls = Some tc) \<longleftrightarrow> (\<exists>tc \<in> set calls. carries k tc)"
proof -
  have "(\<exists>tc. last_call k calls = Some tc) \<longleftrightarrow> filter (carries k) calls \<noteq> []"
    by (simp add: last_call_def split: list.splits)
  then show ?thesis by (simp add: filter_empty_conv)
qed

text \<open>
  Claim C4. Whenever the index is built, it maps every key exactly as the tool calls of
  the assistant turns, read in document order, say: a key that no tool call carries has no
  entry (a tool call without identifier carries no key), and a key that some tool call
  carries is mapped to the function name and compacted arguments of the last tool call
  that carries it. The index therefore depends on the order of the tool calls only through
  which call is the last for each key.
\<close>

theorem call_index_last_write_wins:
  assumes "build_index lib traj = Inr id2call"
  shows "id2call k =
           (case filter (carries k) (document_calls traj) of
              [] \<Rightarrow> None
            | tc # tcs \<Rightarrow> Some (call_pair lib (last (tc # tcs)))) \<and>
         dom id2call = {k. \<exists>tc \<in> set (document_calls traj). carries k tc}"
proof -
  have look: "id2call k' = (case last_call k' (document_calls traj) of
                             Some tc \<Rightarrow> Some (call_pair lib tc)
                           | None \<Rightarrow> None)" for k'
    using index_turns_lookup [OF assms [unfolded build_index_def], of k'] by simp
  have "id2call k =
           (case filter (carries k) (document_calls traj) of
              [] \<Rightarrow> None
            | tc # tcs \<Rightarrow> Some (call_pair lib (last (tc # tcs))))"
    by (simp add: look last_call_def split: list.splits)
  moreover have "dom id2call = {k. \<exists>tc \<in> set (document_calls traj). carries k tc}"
  proof -
    have "k' \<in> dom id2call \<longleftrightarrow> (\<exists>tc. last_call k' (document_calls traj) = Some tc)" for k'
      by (auto simp: look dom_def split: option.splits)
    then show ?thesis by (auto simp: last_call_Some_iff)
  qed
  ultimately show ?thesis by blast
qed

lemma sample_index_anonymous: "index_call sample_lib m anonymous_call = Inr m"
  by (simp add: index_call_def anonymous_call_def call_function_def py_or_def bind_err_def
      dict_get_def compact_args_def)

lemma sample_index_search:
  "index_call sample_lib m search_call = Inr (m(KStr (ustr ''c1'') \<mapsto> (JStr (ustr ''search''), [])))"
  by (simp add: index_call_def search_call_def call_function_def py_or_def bind_err_def
      dict_get_def compact_args_def)

lemma sample_carries:
  "carries (KStr (ustr ''c1'')) lookup_call" "\<not> carries k anonymous_call"
  "carries (KStr (ustr ''c1'')) search_call"
  by (simp_all add: carries_def call_identifier_def lookup_call_def anonymous_call_def
      search_call_def dict_get_def py_or_def)

theorem call_index_last_write_wins_witness:
  "build_index sample_lib repeat_traj = Inr [KStr (ustr ''c1'') \<mapsto> (JStr (ustr ''search''), [])] \<and>
   filter (carries (KStr (ustr ''c1''))) (document_calls repeat_traj) = [lookup_call, search_call] \<and>
   call_pair sample_lib (last [lookup_call, search_call]) = (JStr (ustr ''search''), []) \<and>
   dom [KStr (ustr ''c1'') \<mapsto> (JStr (ustr ''search''), [])] = {KStr (ustr ''c1'')}"
proof -
  have b: "build_index sample_lib repeat_traj =
           Inr [KStr (ustr ''c1'') \<mapsto> (JStr (ustr ''search''), [])]"
    by (simp add: build_index_def repeat_traj_def index_turn_def bind_err_def dict_get_def
        py_or_def sample_index_call sample_index_anonymous sample_index_search sample_index_def)
  have d: "document_calls repeat_traj = [lookup_call, anonymous_call, search_call]"
    by (simp add: document_calls_def repeat_traj_def turn_calls_def dict_get_def py_or_def)
  have p: "call_pair sample_lib search_call = (JStr (ustr ''search''), [])"
    by (simp add: call_pair_def search_call_def call_function_def py_or_def bind_err_def
        dict_get_def compact_args_def)
  from call_index_last_write_wins [OF b, of "KStr (ustr ''c1'')"] b d p
  show ?thesis by (simp add: sample_carries)
qed

section \<open>Reading the keys back\<close>

lemma sep_chars: "ustr '', '' = [44, 32]"
  by (simp add: ustr_def)

lemma segments_no_sep: "\<not> has_sep p \<Longrightarrow> segments cur p = [cur @ p]"
  by (induction p arbitrary: cur rule: has_sep.induct) auto

lemma segments_sep:
  "\<not> has_sep p \<Longrightarrow> segments cur (p @ 44 # 32 # rest) = (cur @ p) # segments [] rest"
  by (induction p arbitrary: cur rule: has_sep.induct) auto

lemma segments_join:
  "parts \<noteq> [] \<Longrightarrow> \<forall>p \<in> set parts. \<not> has_sep p \<Longrightarrow>
   segments [] (join (ustr '', '') parts) = parts"
proof (induction "ustr '', ''" parts rule: join.induct)
  case 1
  then show ?case by simp
next
  case (2 p)
  then show ?case by (simp add: segments_no_sep)
next
  case (3 p q ps)
  define rest where "rest = join (ustr '', '') (q # ps)"
  from 3 have r: "segments [] rest = q # ps" by (simp add: rest_def)
  from 3 have p: "\<not> has_sep p" by simp
  have "join (ustr '', '') (p # q # ps) = p @ 44 # 32 # rest"
    by (simp add: rest_def) (simp add: sep_chars)
  with r segments_sep [OF p, of "[]" rest] show ?case by simp
qed

lemma segment_key_part:
  assumes "61 \<notin> set k"
  shows "segment_key (k @ ustr ''='' @ t) = k"
proof -
  have eq: "ustr ''='' = [61]" by (simp add: ustr_def)
  have "\<exists>r. drop_marker (k @ 61 # t) = k @ 61 # r"
    by (cases "t = []") (auto simp: drop_marker_def ellipsis_def butlast_append)
  then obtain r where "drop_marker (k @ 61 # t) = k @ 61 # r" by blast
  with assms show ?thesis
    by (auto simp: segment_key_def eq takeWhile_tail)
qed


lemma compact_part_Inr:
  "compact_part lib kv = Inr p \<Longrightarrow> \<exists>t. p = fst kv @ ustr ''='' @ t"
  by (auto simp: compact_part_def bind_err_def split: sum.splits)

lemma compact_parts_keys:
  "map_err (compact_part lib) kvs = Inr parts \<Longrightarrow>
   \<forall>kv \<in> set kvs. 61 \<notin> set (fst kv) \<Longrightarrow>
   map segment_key parts = map fst kvs \<and> (\<forall>p \<in> set parts. p \<noteq> []) \<and>
   (parts = [] \<longleftrightarrow> kvs = [])"
proof (induction kvs arbitrary: parts)
  case Nil
  then show ?case by simp
next
  case (Cons kv kvs)
  from Cons.prems(1) obtain p ps where p: "compact_part lib kv = Inr p"
    and ps: "map_err (compact_part lib) kvs = Inr ps" and parts: "parts = p # ps"
    by (auto split: sum.splits)
  from compact_part_Inr [OF p] obtain t where t: "p = fst kv @ ustr ''='' @ t"
    by blast
  with Cons.prems(2) have "segment_key p = fst kv"
    by (simp add: segment_key_part)
  moreover from t have "p \<noteq> []" by (simp add: ustr_def)
  moreover from Cons.IH [OF ps] Cons.prems(2)
  have "map segment_key ps = map fst kvs \<and> (\<forall>p \<in> set ps. p \<noteq> [])" by simp
  ultimately show ?case by (simp add: parts)
qed

lemma join_nonempty: "parts \<noteq> [] \<Longrightarrow> \<forall>p \<in> set parts. p \<noteq> [] \<Longrightarrow> join sep parts \<noteq> []"
  by (induction sep parts rule: join.induct) simp_all

text \<open>
  Claim C3, amended. For every argument string that parses as a JSON mapping whose values
  compact, whose compacted form fits \<open>max_len\<close>, in which no key contains \<^verbatim>\<open>=\<close> and no
  \<^verbatim>\<open>key=value\<close> segment contains the separator \<^verbatim>\<open>", "\<close>: compacting it and reading the keys back
  from the segments yields exactly the keys of the mapping in their order.
\<close>

theorem roundtrip_keys:
  assumes "json_loads lib s = Some (JObj kvs)" and "s \<noteq> []"
    and "map_err (compact_part lib) kvs = Inr parts"
    and "int (length (join (ustr '', '') parts)) \<le> max_len"
    and "\<forall>kv \<in> set kvs. 61 \<notin> set (fst kv)"
    and "\<forall>p \<in> set parts. \<not> has_sep p"
  shows "\<exists>out. compact_args lib (JStr s) max_len = Inr out \<and> reparse_keys out = map fst kvs"
proof -
  from assms(1-4) have out: "compact_args lib (JStr s) max_len = Inr (join (ustr '', '') parts)"
    by (simp add: compact_args_mapping cap_def)
  from compact_parts_keys [OF assms(3,5)]
  have keys: "map segment_key parts = map fst kvs" and ne: "\<forall>p \<in> set parts. p \<noteq> []"
    and nil: "parts = [] \<longleftrightarrow> kvs = []"
    by blast+
  have "reparse_keys (join (ustr '', '') parts) = map fst kvs"
  proof (cases "kvs = []")
    case True
    with nil show ?thesis by (simp add: reparse_keys_def)
  next
    case False
    with nil have p: "parts \<noteq> []" by simp
    then have "join (ustr '', '') parts \<noteq> []"
      using ne by (rule join_nonempty)
    moreover from p assms(6) have "segments [] (join (ustr '', '') parts) = parts"
      by (rule segments_join)
    ultimately show ?thesis by (simp add: reparse_keys_def keys)
  qed
  with out show ?thesis by simp
qed

text \<open>
  Claim C3 says that the keys read back from the compacted form of any mapping are the
  keys of the mapping. The compacted form is capped at \<open>max_len\<close> and its separators are not
  escaped. A mapping with one key of 200 characters compacts to the first 199 characters
  of the key and the ellipsis, from which the key cannot be read back; and the mapping
  \<^verbatim>\<open>{"q": "a, b=c"}\<close> compacts to \<^verbatim>\<open>q="a, b=c"\<close>, which reads back as the two keys \<^verbatim>\<open>q\<close> and
  \<^verbatim>\<open>b\<close>.
\<close>

theorem roundtrip_counterexample:
  \<open>json_loads sample_lib (ustr ''{"'' @ replicate 200 97 @ ustr ''": 1}'') =
     Some (JObj [(replicate 200 97, JInt 1)]) \<and>
   compact_args sample_lib (JStr (ustr ''{"'' @ replicate 200 97 @ ustr ''": 1}'')) 200 =
     Inr (replicate 199 97 @ ellipsis) \<and>
   reparse_keys (replicate 199 97 @ ellipsis) = [replicate 199 97] \<and>
   [replicate 199 97] \<noteq> map fst [(replicate 200 97, JInt 1)] \<and>
   json_loads sample_lib (ustr ''{"q": "a, b=c"}'') =
     Some (JObj [(ustr ''q'', JStr (ustr ''a, b=c''))]) \<and>
   compact_args sample_lib (JStr (ustr ''{"q": "a, b=c"}'')) 200 = Inr (ustr ''q="a, b=c"'') \<and>
   reparse_keys (ustr ''q="a, b=c"'') = [ustr ''q'', ustr ''b''] \<and>
   [ustr ''q'', ustr ''b''] \<noteq> map fst [(ustr ''q'', JStr (ustr ''a, b=c''))]\<close>
proof -
  have 1: \<open>compact_args sample_lib (JStr (ustr ''{"'' @ replicate 200 97 @ ustr ''": 1}'')) 200 =
     Inr (replicate 199 97 @ ellipsis)\<close>
    by (simp add: compact_args_def sample_lib_fields sample_loads_long compact_part_def
        trunc_def bind_err_def sample_dumps_int str_of_int_1 cap_def py_prefix_def)
  have 2: "reparse_keys (replicate 199 97 @ ellipsis) = [replicate 199 97]"
    by (simp add: reparse_keys_def segment_key_def drop_marker_def ellipsis_def replicate_numeral)
  have 3: "[replicate 199 97] \<noteq> map fst [(replicate 200 (97::nat), JInt 1)]"
  proof -
    have "length (replicate 199 (97::nat)) \<noteq> length (replicate 200 (97::nat))" by simp
    then have "replicate 199 (97::nat) \<noteq> replicate 200 97" by metis
    then show ?thesis by simp
  qed
  have q: "sample_dumps (JStr (ustr ''a, b=c'')) = Inr (34 # ustr ''a, b=c'' @ [34])"
    by (rule sample_dumps_plain) (simp add: ustr_def)
  have 4: \<open>compact_args sample_lib (JStr (ustr ''{"q": "a, b=c"}'')) 200 = Inr (ustr ''q="a, b=c"'')\<close>
    by (simp add: compact_args_def sample_lib_fields sample_loads_q compact_part_def trunc_def
        bind_err_def q cap_def)
       (simp add: ustr_def)
  have 5: \<open>reparse_keys (ustr ''q="a, b=c"'') = [ustr ''q'', ustr ''b'']\<close>
    by (simp add: reparse_keys_def segment_key_def drop_marker_def ellipsis_def ustr_def)
  from 1 2 3 4 5 show ?thesis
    by (simp add: sample_lib_fields sample_loads_long sample_loads_q)
qed

theorem roundtrip_keys_witness:
  \<open>json_loads sample_lib (ustr ''{"x":1}'') = Some (JObj [(ustr ''x'', JInt 1)]) \<and>
   ustr ''{"x":1}'' \<noteq> [] \<and>
   map_err (compact_part sample_lib) [(ustr ''x'', JInt 1)] = Inr [ustr ''x=1''] \<and>
   int (length (join (ustr '', '') [ustr ''x=1''])) \<le> 200 \<and>
   list_all (\<lambda>kv. 61 \<notin> set (fst kv)) [(ustr ''x'', JInt 1)] \<and>
   list_all (\<lambda>p. \<not> has_sep p) [ustr ''x=1''] \<and>
   compact_args sample_lib (JStr (ustr ''{"x":1}'')) 200 = Inr (ustr ''x=1'') \<and>
   reparse_keys (ustr ''x=1'') = [ustr ''x'']\<close>
proof -
  have p: "map_err (compact_part sample_lib) [(ustr ''x'', JInt 1)] = Inr [ustr ''x=1'']"
    by (simp add: compact_part_def trunc_def bind_err_def sample_lib_fields sample_dumps_int
        str_of_int_1) (simp add: ustr_def)
  have a: \<open>json_loads sample_lib (ustr ''{"x":1}'') = Some (JObj [(ustr ''x'', JInt 1)])\<close>
    by (simp add: sample_lib_fields sample_loads_x1)
  have b: \<open>ustr ''{"x":1}'' \<noteq> []\<close> by simp
  have c: "int (length (join (ustr '', '') [ustr ''x=1''])) \<le> 200"
    by (simp add: ustr_def)
  have d: "\<forall>kv \<in> set [(ustr ''x'', JInt 1)]. 61 \<notin> set (fst kv)"
    by (simp add: ustr_def)
  have e: "\<forall>p \<in> set [ustr ''x=1'']. \<not> has_sep p"
    by (simp add: ustr_def)
  from roundtrip_keys [OF a b p c d e] sample_compact_x1 a b p c d e show ?thesis
    by (auto simp: list_all_iff)
qed

end
